theory Spec2Isabelle
  imports Complex_Main "HOL-Library.Sublist" "HOL-Library.Multiset"
begin

section \<open>Text: the string operations of the field extractor\<close>

text \<open>
  A Python string is modelled as a \<^typ>\<open>string\<close> whose characters are its code points, all
  below 256 (ASCII and Latin-1); text with higher code points is outside the model.
  The character classes are the ones Python applies to these code points:
  \<^verbatim>\<open>str.isspace\<close> for \<^verbatim>\<open>str.strip()\<close> and \<^verbatim>\<open>\s\<close>, the decimal digits for \<^verbatim>\<open>\d\<close>, the
  alphanumeric characters and the underscore for \<^verbatim>\<open>\w\<close> and \<^verbatim>\<open>\b\<close>, and
  \<^verbatim>\<open>str.lower()\<close>, which is also how \<^verbatim>\<open>re.I\<close> compares the letters of the patterns.
\<close>

definition is_space :: "char \<Rightarrow> bool" where
  "is_space c \<longleftrightarrow> c \<in> set [CHR 0x09, CHR 0x0A, CHR 0x0B, CHR 0x0C, CHR 0x0D,
                           CHR 0x1C, CHR 0x1D, CHR 0x1E, CHR 0x1F, CHR 0x20,
                           CHR 0x85, CHR 0xA0]"

definition is_digit :: "char \<Rightarrow> bool" where
  "is_digit c \<longleftrightarrow> c \<in> set ''0123456789''"

text \<open>The capital letters of Latin-1 and their small forms, in the same order.\<close>

definition latin1_upper :: string where
  "latin1_upper =
       [CHR 0xC0, CHR 0xC1, CHR 0xC2, CHR 0xC3, CHR 0xC4, CHR 0xC5, CHR 0xC6, CHR 0xC7,
        CHR 0xC8, CHR 0xC9, CHR 0xCA, CHR 0xCB, CHR 0xCC, CHR 0xCD, CHR 0xCE, CHR 0xCF,
        CHR 0xD0, CHR 0xD1, CHR 0xD2, CHR 0xD3, CHR 0xD4, CHR 0xD5, CHR 0xD6, CHR 0xD8,
        CHR 0xD9, CHR 0xDA, CHR 0xDB, CHR 0xDC, CHR 0xDD, CHR 0xDE]"

definition latin1_lower :: string where
  "latin1_lower =
       [CHR 0xE0, CHR 0xE1, CHR 0xE2, CHR 0xE3, CHR 0xE4, CHR 0xE5, CHR 0xE6, CHR 0xE7,
        CHR 0xE8, CHR 0xE9, CHR 0xEA, CHR 0xEB, CHR 0xEC, CHR 0xED, CHR 0xEE, CHR 0xEF,
        CHR 0xF0, CHR 0xF1, CHR 0xF2, CHR 0xF3, CHR 0xF4, CHR 0xF5, CHR 0xF6, CHR 0xF8,
        CHR 0xF9, CHR 0xFA, CHR 0xFB, CHR 0xFC, CHR 0xFD, CHR 0xFE]"

text \<open>
  The other alphanumeric characters of Latin-1: the ordinal indicators, the superscript
  digits, the micro sign, the fractions and the sharp s and y with diaeresis, which
  have no capital form below 256.
\<close>

definition latin1_other :: string where
  "latin1_other =
       [CHR 0xAA, CHR 0xB2, CHR 0xB3, CHR 0xB5, CHR 0xB9, CHR 0xBA, CHR 0xBC, CHR 0xBD,
        CHR 0xBE, CHR 0xDF, CHR 0xFF]"

definition is_word :: "char \<Rightarrow> bool" where
  "is_word c \<longleftrightarrow>
     c \<in> set ''abcdefghijklmnopqrstuvwxyzABCDEFGHIJKLMNOPQRSTUVWXYZ0123456789_''
     \<or> c \<in> set latin1_upper \<or> c \<in> set latin1_lower \<or> c \<in> set latin1_other"

definition lower_char :: "char \<Rightarrow> char" where
  "lower_char c =
     (case map_of (zip (''ABCDEFGHIJKLMNOPQRSTUVWXYZ'' @ latin1_upper)
                       (''abcdefghijklmnopqrstuvwxyz'' @ latin1_lower)) c of
        None \<Rightarrow> c
      | Some d \<Rightarrow> d)"

text \<open>\<^verbatim>\<open>s.lower()\<close>\<close>

definition lower :: "string \<Rightarrow> string" where
  "lower s = map lower_char s"

text \<open>\<^verbatim>\<open>s.strip()\<close>: leading and trailing whitespace removed.\<close>

definition strip :: "string \<Rightarrow> string" where
  "strip s = rev (dropWhile is_space (rev (dropWhile is_space s)))"

text \<open>\<^verbatim>\<open>sub in s\<close>: \<open>sub\<close> occurs in \<open>s\<close> as a contiguous run.\<close>

fun contains :: "string \<Rightarrow> string \<Rightarrow> bool" where
  "contains sub [] \<longleftrightarrow> sub = []"
| "contains sub (c # cs) \<longleftrightarrow> prefix sub (c # cs) \<or> contains sub cs"

text \<open>\<^verbatim>\<open>os.path.basename(p)\<close> on a POSIX path: what follows the last slash.\<close>

definition basename :: "string \<Rightarrow> string" where
  "basename p = rev (takeWhile (\<lambda>c. c \<noteq> CHR ''/'') (rev p))"


section \<open>Regular expressions: a backtracking matcher\<close>

text \<open>
  The four patterns of the source use literals, the classes \<^verbatim>\<open>\s\<close>, \<^verbatim>\<open>\d\<close> and \<^verbatim>\<open>[-/]\<close>,
  greedy bounded repetition of one character (\<^verbatim>\<open>?\<close>, \<^verbatim>\<open>+\<close>, \<^verbatim>\<open>{m,n}\<close>), the assertions
  \<^verbatim>\<open>\b\<close> and \<^verbatim>\<open>$\<close>, sequence, and alternation at the top.  The matcher enumerates the
  ways a pattern can match at a position in the order in which Python's \<^verbatim>\<open>re\<close> tries
  them (first alternative first, longest repetition first); the match \<^verbatim>\<open>re\<close> reports is the
  first of them.

  A position is the character before the cursor, if any, and the text after it.
\<close>

datatype atom = Lit char | Space | Digit | OneOf string

datatype item = Rep atom nat "nat option" | WordBoundary | EndOfString

type_synonym pattern = "item list list"

type_synonym pos = "char option \<times> string"

text \<open>The flag is \<^verbatim>\<open>re.I\<close>.\<close>

fun atom_ok :: "bool \<Rightarrow> atom \<Rightarrow> char \<Rightarrow> bool" where
  "atom_ok ic (Lit l) c \<longleftrightarrow> (if ic then lower_char c = lower_char l else c = l)"
| "atom_ok ic Space c \<longleftrightarrow> is_space c"
| "atom_ok ic Digit c \<longleftrightarrow> is_digit c"
| "atom_ok ic (OneOf cs) c \<longleftrightarrow> c \<in> set cs"

text \<open>
  \<open>rep ic a lo hi\<close>: between \<open>lo\<close> and \<open>hi\<close> characters of class \<open>a\<close> (no upper bound
  when \<open>hi\<close> is \<open>None\<close>), the longest run first.
\<close>

fun rep :: "bool \<Rightarrow> atom \<Rightarrow> nat \<Rightarrow> nat option \<Rightarrow> pos \<Rightarrow> pos list" where
  "rep ic a lo hi (p, []) = (if lo = 0 then [(p, [])] else [])"
| "rep ic a lo hi (p, c # cs) =
     (if hi \<noteq> Some 0 \<and> atom_ok ic a c
      then rep ic a (lo - 1) (map_option (\<lambda>h. h - 1) hi) (Some c, cs) else [])
     @ (if lo = 0 then [(p, c # cs)] else [])"

definition word_before :: "pos \<Rightarrow> bool" where
  "word_before x = (case fst x of None \<Rightarrow> False | Some c \<Rightarrow> is_word c)"

definition word_after :: "pos \<Rightarrow> bool" where
  "word_after x = (case snd x of [] \<Rightarrow> False | c # _ \<Rightarrow> is_word c)"

fun step :: "bool \<Rightarrow> item \<Rightarrow> pos \<Rightarrow> pos list" where
  "step ic (Rep a lo hi) x = rep ic a lo hi x"
| "step ic WordBoundary x = (if word_before x \<noteq> word_after x then [x] else [])"
| "step ic EndOfString x = (if snd x = [] \<or> snd x = [CHR 0x0A] then [x] else [])"

fun seq :: "bool \<Rightarrow> item list \<Rightarrow> pos \<Rightarrow> pos list" where
  "seq ic [] x = [x]"
| "seq ic (i # is) x = concat (map (seq ic is) (step ic i x))"

text \<open>The ends of the matches that start at \<open>x\<close>, in the order \<^verbatim>\<open>re\<close> tries them.\<close>

definition match_here :: "bool \<Rightarrow> pattern \<Rightarrow> pos \<Rightarrow> pos list" where
  "match_here ic r x = concat (map (\<lambda>alt. seq ic alt x) r)"

text \<open>\<^verbatim>\<open>r.search(s)\<close> from a position on: the leftmost start with a match.\<close>

fun search_from :: "bool \<Rightarrow> pattern \<Rightarrow> pos \<Rightarrow> (pos \<times> pos) option" where
  "search_from ic r (p, []) =
     (case match_here ic r (p, []) of [] \<Rightarrow> None | e # _ \<Rightarrow> Some ((p, []), e))"
| "search_from ic r (p, c # cs) =
     (case match_here ic r (p, c # cs) of
        [] \<Rightarrow> search_from ic r (Some c, cs)
      | e # _ \<Rightarrow> Some ((p, c # cs), e))"

definition re_search :: "bool \<Rightarrow> pattern \<Rightarrow> string \<Rightarrow> bool" where
  "re_search ic r s \<longleftrightarrow> search_from ic r (None, s) \<noteq> None"

text \<open>
  The first match at a position, and the text it covers.  None of the patterns of the
  source matches the empty string; a match that consumes nothing is dropped, so that
  the scans below always advance.
\<close>

definition first_match :: "bool \<Rightarrow> pattern \<Rightarrow> pos \<Rightarrow> pos option" where
  "first_match ic r x =
     (case match_here ic r x of
        [] \<Rightarrow> None
      | e # _ \<Rightarrow> if length (snd e) < length (snd x) then Some e else None)"

definition matched :: "pos \<Rightarrow> pos \<Rightarrow> string" where
  "matched b e = take (length (snd b) - length (snd e)) (snd b)"

text \<open>
  The matches of a pattern in the text after a position, left to right and not
  overlapping, each with the piece of text that precedes it, and the piece after the
  last match.
\<close>

function scan :: "bool \<Rightarrow> pattern \<Rightarrow> string \<Rightarrow> pos \<Rightarrow> (string \<times> string) list \<times> string" where
  "scan ic r piece (p, []) = ([], piece)"
| "scan ic r piece (p, c # cs) =
     (case first_match ic r (p, c # cs) of
        Some e \<Rightarrow>
          (let (ms, rest) = scan ic r [] e
           in ((piece, matched (p, c # cs) e) # ms, rest))
      | None \<Rightarrow> scan ic r (piece @ [c]) (Some c, cs))"
  by pat_completeness auto
termination
  by (relation "measure (\<lambda>(ic, r, piece, x). length (snd x))")
     (auto simp: first_match_def split: list.splits if_splits)

text \<open>\<^verbatim>\<open>re.findall(r, s)\<close> for a pattern without groups.\<close>

definition re_findall :: "bool \<Rightarrow> pattern \<Rightarrow> string \<Rightarrow> string list" where
  "re_findall ic r s = map snd (fst (scan ic r [] (None, s)))"

text \<open>\<^verbatim>\<open>re.split(r, s)\<close> for a pattern without groups.\<close>

definition re_split :: "bool \<Rightarrow> pattern \<Rightarrow> string \<Rightarrow> string list" where
  "re_split ic r s = (let (ms, rest) = scan ic r [] (None, s) in map fst ms @ [rest])"

abbreviation one :: "atom \<Rightarrow> item" where "one a \<equiv> Rep a 1 (Some 1)"
abbreviation opt :: "atom \<Rightarrow> item" where "opt a \<equiv> Rep a 0 (Some 1)"
abbreviation plus_of :: "atom \<Rightarrow> item" where "plus_of a \<equiv> Rep a 1 None"

text \<open>\<^verbatim>\<open>re.compile(r'vs\.?|v/s', re.I)\<close>\<close>

definition sep_re :: pattern where
  "sep_re = [[one (Lit CHR ''v''), one (Lit CHR ''s''), opt (Lit CHR ''.'')],
             [one (Lit CHR ''v''), one (Lit CHR ''/''), one (Lit CHR ''s'')]]"

text \<open>\<^verbatim>\<open>r'\s+vs?\.?\s+|\s+v/s\s+'\<close>, used with \<^verbatim>\<open>re.I\<close>\<close>

definition split_re :: pattern where
  "split_re =
     [[plus_of Space, one (Lit CHR ''v''), opt (Lit CHR ''s''), opt (Lit CHR ''.''), plus_of Space],
      [plus_of Space, one (Lit CHR ''v''), one (Lit CHR ''/''), one (Lit CHR ''s''), plus_of Space]]"

text \<open>\<^verbatim>\<open>r'\b\d{1,2}[-/]\d{1,2}[-/]\d{2,4}\b'\<close>\<close>

definition date_pattern :: pattern where
  "date_pattern =
     [[WordBoundary, Rep Digit 1 (Some 2), one (OneOf ''-/''), Rep Digit 1 (Some 2),
       one (OneOf ''-/''), Rep Digit 2 (Some 4), WordBoundary]]"

text \<open>
  A date token as the specification words it: one or two digits for the day, a \<open>-\<close> or
  \<open>/\<close>, one or two digits for the month, a \<open>-\<close> or \<open>/\<close>, and two to four digits for the
  year.
\<close>

definition is_date_token :: "string \<Rightarrow> bool" where
  "is_date_token s \<longleftrightarrow>
     (let day = takeWhile is_digit s; r1 = dropWhile is_digit s;
          month = takeWhile is_digit (tl r1); r2 = dropWhile is_digit (tl r1);
          year = tl r2
      in length day \<in> {1, 2} \<and> r1 \<noteq> [] \<and> hd r1 \<in> set ''-/''
       \<and> length month \<in> {1, 2} \<and> r2 \<noteq> [] \<and> hd r2 \<in> set ''-/''
       \<and> length year \<in> {2, 3, 4} \<and> list_all is_digit year)"

text \<open>\<^verbatim>\<open>re.compile(r'\.pdf$', re.I)\<close>\<close>

definition pdf_re :: pattern where
  "pdf_re = [[one (Lit CHR ''.''), one (Lit CHR ''p''), one (Lit CHR ''d''), one (Lit CHR ''f''),
              EndOfString]]"


section \<open>Documents: the parsed page\<close>

text \<open>
  The tree \<^verbatim>\<open>BeautifulSoup(page_source, 'html.parser')\<close> builds: tags with a name, attributes
  and children, and strings.  A string has one of the classes of the library:
  \<open>NavigableString\<close> for ordinary text, \<open>CData\<close>, the classes the parser gives to text
  inside \<open>script\<close>, \<open>style\<close>, \<open>template\<close>, \<open>rt\<close> and \<open>rp\<close> elements, and \<open>Comment\<close>, which
  also stands for declarations, doctypes and processing instructions (no tag collects
  any of these).
\<close>

datatype node =
    Tag string "(string \<times> string) list" "node list"
  | NavigableString string
  | CData string
  | Comment string
  | Script string
  | Stylesheet string
  | TemplateString string
  | RubyTextString string
  | RubyParenthesisString string

fun is_tag :: "node \<Rightarrow> bool" where
  "is_tag (Tag n a cs) = True"
| "is_tag _ = False"

fun tag_name :: "node \<Rightarrow> string" where
  "tag_name (Tag n a cs) = n"
| "tag_name _ = []"

text \<open>\<^verbatim>\<open>tag.get(key)\<close>\<close>

fun get_attr :: "node \<Rightarrow> string \<Rightarrow> string option" where
  "get_attr (Tag n a cs) k = map_of a k"
| "get_attr _ k = None"

text \<open>The characters of a string node.\<close>

fun str :: "node \<Rightarrow> string" where
  "str (Tag n a cs) = []"
| "str (NavigableString s) = s"
| "str (CData s) = s"
| "str (Comment s) = s"
| "str (Script s) = s"
| "str (Stylesheet s) = s"
| "str (TemplateString s) = s"
| "str (RubyTextString s) = s"
| "str (RubyParenthesisString s) = s"

text \<open>
  The strings a tag collects for \<^verbatim>\<open>get_text\<close> (its \<^verbatim>\<open>interesting_string_types\<close>): a
  \<open>script\<close>, \<open>style\<close>, \<open>template\<close>, \<open>rt\<close> or \<open>rp\<close> tag collects the strings of its own class
  only, every other tag, and the document itself, the ordinary strings and the CDATA
  sections.
\<close>

fun container_of :: "node \<Rightarrow> string option" where
  "container_of (Script s) = Some ''script''"
| "container_of (Stylesheet s) = Some ''style''"
| "container_of (TemplateString s) = Some ''template''"
| "container_of (RubyTextString s) = Some ''rt''"
| "container_of (RubyParenthesisString s) = Some ''rp''"
| "container_of _ = None"

fun is_plain :: "node \<Rightarrow> bool" where
  "is_plain (NavigableString s) = True"
| "is_plain (CData s) = True"
| "is_plain _ = False"

definition interesting :: "string \<Rightarrow> node \<Rightarrow> bool" where
  "interesting name d \<longleftrightarrow>
     (if name \<in> set [''rt'', ''rp'', ''style'', ''script'', ''template'']
      then container_of d = Some name else is_plain d)"

text \<open>
  \<^verbatim>\<open>tag.string\<close>: the only child when it is a string, the \<^verbatim>\<open>.string\<close> of the only child
  when it is a tag, and \<^verbatim>\<open>None\<close> when the tag has no child or several.
\<close>

fun string_of :: "node \<Rightarrow> node option" where
  "string_of (Tag n a [Tag n' a' cs']) = string_of (Tag n' a' cs')"
| "string_of (Tag n a [c]) = Some c"
| "string_of (Tag n a cs) = None"
| "string_of s = Some s"

text \<open>
  \<^verbatim>\<open>tag.descendants\<close>, in document order, each with its \<^verbatim>\<open>.parent\<close>.
\<close>

fun with_parent :: "node \<Rightarrow> (node \<times> node) list" where
  "with_parent (Tag n a cs) = concat (map (\<lambda>c. (c, Tag n a cs) # with_parent c) cs)"
| "with_parent _ = []"

definition descendants :: "node \<Rightarrow> node list" where
  "descendants t = map fst (with_parent t)"

text \<open>
  \<^verbatim>\<open>tag.get_text(strip=...)\<close>: the strings below the tag that it collects, joined
  without separator; with \<^verbatim>\<open>strip=True\<close> each one is stripped first and the empty ones
  are dropped.
\<close>

definition all_strings :: "bool \<Rightarrow> node \<Rightarrow> string list" where
  "all_strings strp t =
     (let ss = map str (filter (interesting (tag_name t)) (descendants t))
      in if strp then filter (\<lambda>s. s \<noteq> []) (map strip ss) else ss)"

definition get_text :: "bool \<Rightarrow> node \<Rightarrow> string" where
  "get_text strp t = concat (all_strings strp t)"

text \<open>
  \<^verbatim>\<open>soup.find_all(names, ...)\<close>: the descendant tags with one of the names that meet the
  further criterion, in document order (each paired with its parent).  The two criteria
  of the source are \<^verbatim>\<open>text=re.compile(..., re.I)\<close>, which searches the tag's
  \<^verbatim>\<open>.string\<close>, and \<^verbatim>\<open>href=re.compile(..., re.I)\<close>, which searches the attribute's value.
\<close>

definition find_all :: "string list \<Rightarrow> (node \<Rightarrow> bool) \<Rightarrow> node \<Rightarrow> (node \<times> node) list" where
  "find_all names crit t =
     filter (\<lambda>(e, p). is_tag e \<and> tag_name e \<in> set names \<and> crit e) (with_parent t)"

definition string_matches :: "pattern \<Rightarrow> node \<Rightarrow> bool" where
  "string_matches r e = (case string_of e of None \<Rightarrow> False | Some s \<Rightarrow> re_search True r (str s))"

definition attr_matches :: "string \<Rightarrow> pattern \<Rightarrow> node \<Rightarrow> bool" where
  "attr_matches k r e = (case get_attr e k of None \<Rightarrow> False | Some v \<Rightarrow> re_search True r v)"


section \<open>The field extractor: \<^verbatim>\<open>CourtDataFetcher.parse_case_details\<close>\<close>

record order_doc =
  title :: string
  url :: string
  date :: "string option"

record case_data =
  parties :: "string list"
  filing_date :: "string option"
  next_hearing_date :: "string option"
  orders :: "order_doc list"
  status :: string

text \<open>
  What a lookup yields: the dictionary \<^verbatim>\<open>{"error": message}\<close> or the case data.
\<close>

datatype payload = ErrorPayload string | CasePayload case_data

definition base_url :: string where
  "base_url = ''https://delhihighcourt.nic.in''"

definition search_url :: string where
  "search_url = base_url @ ''/case_status.asp''"

text \<open>
  The loop over \<^verbatim>\<open>party_elements\<close>; the second argument is \<^verbatim>\<open>case_data["parties"]\<close> on
  entry.  Every element found has a parent and a tag is never falsy, so the test
  \<^verbatim>\<open>if parent\<close> always passes.
\<close>

fun find_parties :: "(node \<times> node) list \<Rightarrow> string list \<Rightarrow> string list" where
  "find_parties [] ps = ps"
| "find_parties ((element, parent) # rest) ps =
     (let text = get_text True parent
      in if contains ''vs'' (lower text) \<or> contains ''v/s'' (lower text)
         then map strip (filter (\<lambda>p. strip p \<noteq> []) (re_split True split_re text))
         else find_parties rest ps)"

text \<open>
  The loop over \<^verbatim>\<open>pdf_links\<close>.  \<^verbatim>\<open>urljoin\<close> is the library's; it is a parameter here, and
  yields \<open>None\<close> where the library raises (it rejects some malformed addresses).
\<close>

fun collect_orders ::
  "(string \<Rightarrow> string \<Rightarrow> string option) \<Rightarrow> (node \<times> node) list \<Rightarrow> order_doc list
     \<Rightarrow> order_doc list option" where
  "collect_orders urljoin [] acc = Some acc"
| "collect_orders urljoin ((link, parent) # rest) acc =
     (case get_attr link ''href'' of
        None \<Rightarrow> collect_orders urljoin rest acc
      | Some href \<Rightarrow>
          if href = [] then collect_orders urljoin rest acc
          else (case urljoin base_url href of
                  None \<Rightarrow> None
                | Some full_url \<Rightarrow>
                    collect_orders urljoin rest
                      (acc @ [\<lparr>title = (let t = get_text True link
                                         in if t = [] then ''Order Document'' else t),
                               url = full_url, date = None\<rparr>])))"

definition parse_case_details :: "(string \<Rightarrow> string \<Rightarrow> string option) \<Rightarrow> node \<Rightarrow> payload" where
  "parse_case_details urljoin soup =
     (let case_data = \<lparr>parties = [], filing_date = None, next_hearing_date = None,
                       orders = [], status = ''Active''\<rparr>;
          party_elements = find_all [''td'', ''div''] (string_matches sep_re) soup;
          case_data = case_data\<lparr>parties := find_parties party_elements (parties case_data)\<rparr>;
          dates = re_findall False date_pattern (get_text False soup);
          case_data =
            (if dates \<noteq> []
             then case_data\<lparr>filing_date := (if length dates > 0 then Some (hd dates) else None),
                            next_hearing_date :=
                              (if length dates > 1 then Some (last dates) else None)\<rparr>
             else case_data);
          pdf_links = find_all [''a''] (attr_matches ''href'' pdf_re) soup
      in case collect_orders urljoin pdf_links (orders case_data) of
           None \<Rightarrow> ErrorPayload ''Failed to parse case details''
         | Some os \<Rightarrow> CasePayload (case_data\<lparr>orders := os\<rparr>))"


text \<open>
  The extraction fails exactly when the address of one of the \<^verbatim>\<open>.pdf\<close> links cannot be
  resolved.
\<close>

definition unresolved :: "(string \<Rightarrow> string \<Rightarrow> string option) \<Rightarrow> node \<Rightarrow> bool" where
  "unresolved urljoin t \<longleftrightarrow>
     list_ex (\<lambda>(link, parent).
                case get_attr link ''href'' of
                  None \<Rightarrow> False
                | Some href \<Rightarrow> href \<noteq> [] \<and> urljoin base_url href = None)
       (find_all [''a''] (attr_matches ''href'' pdf_re) t)"


section \<open>Requests: the JSON body of a lookup\<close>

text \<open>
  What \<^verbatim>\<open>request.get_json()\<close> yields.  A dictionary is an association list whose first
  entry for a key is the dictionary's; a float is the rational number it denotes.
\<close>

datatype json =
    JNull
  | JBool bool
  | JInt int
  | JFloat rat
  | JStr string
  | JArr "json list"
  | JObj "(string \<times> json) list"

text \<open>Python's truth value, which \<^verbatim>\<open>all([...])\<close> tests.\<close>

fun truthy :: "json \<Rightarrow> bool" where
  "truthy JNull = False"
| "truthy (JBool b) = b"
| "truthy (JInt n) = (n \<noteq> 0)"
| "truthy (JFloat r) = (r \<noteq> 0)"
| "truthy (JStr s) = (s \<noteq> [])"
| "truthy (JArr xs) = (xs \<noteq> [])"
| "truthy (JObj kvs) = (kvs \<noteq> [])"

text \<open>
  The exceptions that reach the handler of the lookup request: a body without the
  method \<^verbatim>\<open>get\<close>, a failing insert, and an exception of the driver that the lookup
  client does not catch.
\<close>

datatype error = AttributeError | DatabaseError | WebDriverException string

text \<open>\<^verbatim>\<open>data.get(key)\<close>: only a dictionary has the method.\<close>

fun dict_get :: "json \<Rightarrow> string \<Rightarrow> error + json" where
  "dict_get (JObj kvs) k = Inr (case map_of kvs k of None \<Rightarrow> JNull | Some v \<Rightarrow> v)"
| "dict_get _ k = Inl AttributeError"


section \<open>The case lookup client: \<^verbatim>\<open>CourtDataFetcher.fetch_case_data\<close>\<close>

text \<open>
  The calls the client makes on the browser, in the order of the source.  Elements are
  located by name.  A browser is described by whether the driver can be constructed,
  which calls raise (with the text of the exception), and the document that the page
  source parses to.  \<open>PageSource\<close> stands for reading the page source and parsing it,
  so that a page the parser rejects is a call that raises.  Logging and the fixed pause
  after the submit have no effect on the result and are left out, and so are the limits
  of the machine (memory, depth of recursion).
\<close>

datatype browser_call =
    Launch
  | Get string
  | WaitPresence string
  | FindElement string
  | SelectInit string
  | SelectByVisibleText json
  | Clear string
  | SendKeys string json
  | FindElements string
  | Click string
  | PageSource
  | Quit

record browser =
  launches :: bool
  raises :: "browser_call \<Rightarrow> string option"
  soup :: node

text \<open>The body of the \<^verbatim>\<open>try\<close> block up to the page source.\<close>

definition form_script :: "json \<Rightarrow> json \<Rightarrow> json \<Rightarrow> browser_call list" where
  "form_script case_type case_number filing_year =
     [Get search_url,
      WaitPresence ''case_type'',
      FindElement ''case_type'', SelectInit ''case_type'', SelectByVisibleText case_type,
      FindElement ''case_no'', Clear ''case_no'', SendKeys ''case_no'' case_number,
      FindElement ''case_year'', Clear ''case_year'', SendKeys ''case_year'' filing_year,
      FindElements ''captcha'',
      FindElement ''Submit'', Click ''Submit'',
      PageSource]"

text \<open>
  The calls are made in turn until one raises; the result is the calls made and the
  exception, if any.
\<close>

fun run_calls :: "browser \<Rightarrow> browser_call list \<Rightarrow> browser_call list \<times> string option" where
  "run_calls b [] = ([], None)"
| "run_calls b (c # cs) =
     (case raises b c of
        Some msg \<Rightarrow> ([c], Some msg)
      | None \<Rightarrow> (let (made, err) = run_calls b cs in (c # made, err)))"

text \<open>
  The outcome of the lookup and the calls made on the browser.  \<^verbatim>\<open>driver.quit()\<close> is
  called in the \<^verbatim>\<open>finally\<close> clause: when it raises, its exception replaces the value
  about to be returned and leaves the function.
\<close>

definition fetch_case_data ::
  "(string \<Rightarrow> string \<Rightarrow> string option) \<Rightarrow> browser \<Rightarrow> json \<Rightarrow> json \<Rightarrow> json
     \<Rightarrow> (error + payload) \<times> browser_call list" where
  "fetch_case_data urljoin b case_type case_number filing_year =
     (if \<not> launches b then (Inr (ErrorPayload ''Failed to initialize browser''), [Launch])
      else
        let (made, err) = run_calls b (form_script case_type case_number filing_year);
            result = (case err of
                        Some msg \<Rightarrow> ErrorPayload msg
                      | None \<Rightarrow> parse_case_details urljoin (soup b))
        in ((case raises b Quit of
               None \<Rightarrow> Inr result
             | Some msg \<Rightarrow> Inl (WebDriverException msg)),
            Launch # made @ [Quit]))"


section \<open>The log store\<close>

text \<open>
  A value bound to a statement: \<^verbatim>\<open>sqlite3\<close> binds \<^verbatim>\<open>None\<close>, integers of at most 64 bits,
  floats and strings, and raises on lists, dictionaries and larger integers.
\<close>

datatype sqlval = SqlNull | SqlInt int | SqlReal rat | SqlText string | SqlRealText rat

fun adapt :: "json \<Rightarrow> sqlval option" where
  "adapt JNull = Some SqlNull"
| "adapt (JBool b) = Some (SqlInt (if b then 1 else 0))"
| "adapt (JInt n) = (if - (2 ^ 63) \<le> n \<and> n < 2 ^ 63 then Some (SqlInt n) else None)"
| "adapt (JFloat r) = Some (SqlReal r)"
| "adapt (JStr s) = Some (SqlText s)"
| "adapt (JArr xs) = None"
| "adapt (JObj kvs) = None"

text \<open>
  The three request columns are declared \<^verbatim>\<open>TEXT\<close>: a bound string is stored as it is
  and a bound number as its text.  The text of an integer is its decimal numeral; the
  digits SQLite gives a float are not computed, \<open>SqlRealText r\<close> stands for the text of
  the float \<open>r\<close>.
\<close>

definition digit_char :: "nat \<Rightarrow> char" where
  "digit_char n = ''0123456789'' ! (n mod 10)"

function decimal_nat :: "nat \<Rightarrow> string" where
  "decimal_nat n = (if n < 10 then [digit_char n] else decimal_nat (n div 10) @ [digit_char n])"
  by pat_completeness auto
termination
  by (relation "measure id") auto

definition decimal :: "int \<Rightarrow> string" where
  "decimal i = (if i < 0 then CHR ''-'' # decimal_nat (nat (- i)) else decimal_nat (nat i))"

fun text_affinity :: "sqlval \<Rightarrow> sqlval" where
  "text_affinity SqlNull = SqlNull"
| "text_affinity (SqlInt i) = SqlText (decimal i)"
| "text_affinity (SqlReal r) = SqlRealText r"
| "text_affinity (SqlText s) = SqlText s"
| "text_affinity (SqlRealText r) = SqlRealText r"

text \<open>
  A row of the table \<^verbatim>\<open>queries\<close>.  \<open>parsed_data\<close> holds the payload whose JSON text the
  source stores.
\<close>

record query_record =
  row_id :: nat
  case_type :: sqlval
  case_number :: sqlval
  filing_year :: sqlval
  query_timestamp :: nat
  raw_response :: string
  parsed_data :: payload
  query_status :: string

text \<open>
  The database: \<open>None\<close> until \<^verbatim>\<open>init_db\<close> has created the table, then its rows in
  the order of insertion.
\<close>

type_synonym store = "query_record list option"

definition init_db :: "store \<Rightarrow> store" where
  "init_db st = (case st of None \<Rightarrow> Some [] | Some rows \<Rightarrow> Some rows)"

text \<open>\<^verbatim>\<open>AUTOINCREMENT\<close>: one more than the largest identifier.\<close>

definition next_id :: "query_record list \<Rightarrow> nat" where
  "next_id rows = Suc (fold max (map row_id rows) 0)"

text \<open>
  \<^verbatim>\<open>save_query_to_db\<close>; \<open>now\<close> is the store's clock, which stamps the row.  The insert
  raises when the table is missing or a value cannot be bound, and then nothing is
  written.
\<close>

definition save_query_to_db ::
  "nat \<Rightarrow> json \<Rightarrow> json \<Rightarrow> json \<Rightarrow> string \<Rightarrow> payload \<Rightarrow> string \<Rightarrow> store \<Rightarrow> error + store" where
  "save_query_to_db now ct cn fy raw parsed st_text st =
     (case st of
        None \<Rightarrow> Inl DatabaseError
      | Some rows \<Rightarrow>
          (case (adapt ct, adapt cn, adapt fy) of
             (Some a, Some b, Some c) \<Rightarrow>
               Inr (Some (rows @ [\<lparr>row_id = next_id rows, case_type = text_affinity a,
                                    case_number = text_affinity b,
                                    filing_year = text_affinity c, query_timestamp = now,
                                    raw_response = raw, parsed_data = parsed,
                                    query_status = st_text\<rparr>]))
           | _ \<Rightarrow> Inl DatabaseError))"


section \<open>The request layer\<close>

subsection \<open>\<^verbatim>\<open>search_case\<close>\<close>

text \<open>
  The request body is \<open>None\<close> when \<^verbatim>\<open>get_json\<close> raises.  The result is the response
  (JSON body and HTTP status), the calls made on the browser, and the store afterwards.
  Every exception raised inside the handler ends in the response of its catch-all.
\<close>

fun has_error :: "payload \<Rightarrow> bool" where
  "has_error (ErrorPayload m) = True"
| "has_error (CasePayload d) = False"

definition internal_error :: "payload \<times> nat" where
  "internal_error = (ErrorPayload ''Internal server error'', 500)"

definition search_case ::
  "(string \<Rightarrow> string \<Rightarrow> string option) \<Rightarrow> browser \<Rightarrow> nat \<Rightarrow> json option \<Rightarrow> store
     \<Rightarrow> (payload \<times> nat) \<times> browser_call list \<times> store" where
  "search_case urljoin b now body st =
     (case body of
        None \<Rightarrow> (internal_error, [], st)
      | Some data \<Rightarrow>
          (case (dict_get data ''case_type'', dict_get data ''case_number'',
                 dict_get data ''filing_year'') of
             (Inr ct, Inr cn, Inr fy) \<Rightarrow>
               if \<not> list_all truthy [ct, cn, fy]
               then ((ErrorPayload ''All fields are required'', 400), [], st)
               else
                 let (outcome, made) = fetch_case_data urljoin b ct cn fy
                 in (case outcome of
                       Inl e \<Rightarrow> (internal_error, made, st)
                     | Inr case_data \<Rightarrow>
                         let status = (if \<not> has_error case_data then ''success''
                                       else ''error'')
                         in (case save_query_to_db now ct cn fy [] case_data status st of
                               Inl e \<Rightarrow> (internal_error, made, st)
                             | Inr st' \<Rightarrow> ((case_data, 200), made, st')))
           | _ \<Rightarrow> (internal_error, [], st)))"

subsection \<open>\<^verbatim>\<open>get_history\<close>\<close>

record history_entry =
  h_case_type :: sqlval
  h_case_number :: sqlval
  h_filing_year :: sqlval
  h_timestamp :: nat
  h_status :: string

definition summary :: "query_record \<Rightarrow> history_entry" where
  "summary r = \<lparr>h_case_type = case_type r, h_case_number = case_number r,
                h_filing_year = filing_year r, h_timestamp = query_timestamp r,
                h_status = query_status r\<rparr>"

text \<open>
  \<^verbatim>\<open>ORDER BY query_timestamp DESC\<close>.  The statement names no second key, so the order of
  rows with equal timestamps is the engine's: it is the order in which the engine
  feeds the rows to a stable descending sort, a parameter of the model that may be any
  rearrangement of the table.  SQLite leaves them in the order of their identifiers.
\<close>

fun insert_desc :: "('a \<Rightarrow> nat) \<Rightarrow> 'a \<Rightarrow> 'a list \<Rightarrow> 'a list" where
  "insert_desc k x [] = [x]"
| "insert_desc k x (y # ys) = (if k y \<le> k x then x # y # ys else y # insert_desc k x ys)"

definition order_by_desc :: "('a \<Rightarrow> nat) \<Rightarrow> 'a list \<Rightarrow> 'a list" where
  "order_by_desc k xs = foldr (insert_desc k) xs []"

definition rowid_order :: "query_record list \<Rightarrow> query_record list" where
  "rowid_order rows = rows"

definition get_history ::
  "(query_record list \<Rightarrow> query_record list) \<Rightarrow> store \<Rightarrow> (string + history_entry list) \<times> nat" where
  "get_history engine st =
     (case st of
        None \<Rightarrow> (Inl ''Failed to fetch history'', 500)
      | Some rows \<Rightarrow>
          (Inr (map summary (take 50 (order_by_desc query_timestamp (engine rows)))), 200))"

subsection \<open>\<^verbatim>\<open>download_pdf\<close>\<close>

text \<open>
  The remote side and the file system: \<open>http_get\<close> is \<^verbatim>\<open>requests.get\<close> (\<open>None\<close> when it
  raises), \<open>url_path\<close> is \<^verbatim>\<open>urlparse(url).path\<close> (\<open>None\<close> when it raises), \<open>writable\<close>
  tells whether the temporary file can be opened for writing.
\<close>

record http_response =
  status_code :: nat
  content :: string

record relay_env =
  http_get :: "string \<Rightarrow> http_response option"
  url_path :: "string \<Rightarrow> string option"
  writable :: "string \<Rightarrow> bool"

record world =
  db :: store
  tmp_files :: "string \<rightharpoonup> string"

datatype relay_body = RelayError string | Attachment string string

definition download_failed :: "relay_body \<times> nat" where
  "download_failed = (RelayError ''Download failed'', 500)"

text \<open>The argument is \<^verbatim>\<open>request.args.get('url')\<close>.\<close>

definition download_pdf ::
  "relay_env \<Rightarrow> string option \<Rightarrow> world \<Rightarrow> (relay_body \<times> nat) \<times> world" where
  "download_pdf env arg w =
     (case arg of
        None \<Rightarrow> ((RelayError ''PDF URL required'', 400), w)
      | Some pdf_url \<Rightarrow>
          if pdf_url = [] then ((RelayError ''PDF URL required'', 400), w)
          else
            (case http_get env pdf_url of
               None \<Rightarrow> (download_failed, w)
             | Some response \<Rightarrow>
                 if status_code response = 200
                 then
                   (case url_path env pdf_url of
                      None \<Rightarrow> (download_failed, w)
                    | Some path \<Rightarrow>
                        let filename = (if basename path = [] then ''document.pdf''
                                        else basename path);
                            temp_path = ''/tmp/'' @ filename
                        in if \<not> writable env temp_path then (download_failed, w)
                           else ((Attachment filename (content response), 200),
                                 w\<lparr>tmp_files := (tmp_files w)(temp_path \<mapsto> content response)\<rparr>))
                 else ((RelayError ''Failed to download PDF'', 400), w)))"


fun is_relay_error :: "relay_body \<Rightarrow> bool" where
  "is_relay_error (RelayError m) = True"
| "is_relay_error (Attachment n c) = False"


section \<open>Example inputs\<close>

text \<open>A resolver that appends the link to the base, as \<^verbatim>\<open>urljoin\<close> does for an absolute path.\<close>

definition ex_urljoin :: "string \<Rightarrow> string \<Rightarrow> string option" where
  "ex_urljoin base href = Some (base @ href)"

definition party_page :: node where
  "party_page =
     Tag ''[document]'' []
       [Tag ''div'' [] [NavigableString ''Plaintiff Name vs. Defendant Name'']]"


definition dates_page :: node where
  "dates_page =
     Tag ''[document]'' []
       [Tag ''p'' [] [NavigableString ''Filed 01/01/2022, next hearing 15/06/2023.'']]"

text \<open>
  A page with parties, a date and a link to an order whose address is malformed, and a
  resolver that, like \<^verbatim>\<open>urljoin\<close>, raises on that address.
\<close>

definition bad_link_page :: node where
  "bad_link_page =
     Tag ''[document]'' []
       [Tag ''div'' [] [NavigableString ''Plaintiff Name vs. Defendant Name''],
        Tag ''p'' [] [NavigableString ''Filed on 12-03-2023 ''],
        Tag ''a'' [(''href'', ''http://[bad.pdf'')] [NavigableString ''Order'']]"

definition strict_urljoin :: "string \<Rightarrow> string \<Rightarrow> string option" where
  "strict_urljoin base href = (if href = ''http://[bad.pdf'' then None else Some (base @ href))"

definition plain_page :: node where
  "plain_page = Tag ''[document]'' [] [Tag ''p'' [] [NavigableString ''No records found'']]"

text \<open>A browser whose driver cannot be constructed, and one whose page never loads.\<close>

definition browser_down :: browser where
  "browser_down = \<lparr>launches = False, raises = (\<lambda>c. None), soup = plain_page\<rparr>"

definition browser_stuck :: browser where
  "browser_stuck =
     \<lparr>launches = True,
      raises = (\<lambda>c. if c = WaitPresence ''case_type'' then Some ''Message: timeout'' else None),
      soup = plain_page\<rparr>"

text \<open>A browser that does all it is asked and then fails to quit.\<close>

definition browser_quit_fails :: browser where
  "browser_quit_fails =
     \<lparr>launches = True,
      raises = (\<lambda>c. if c = Quit then Some ''Message: chrome not reachable'' else None),
      soup = plain_page\<rparr>"

definition ex_request :: json where
  "ex_request =
     JObj [(''case_type'', JStr ''CRL.A.''), (''case_number'', JStr ''1234''),
           (''filing_year'', JStr ''2023'')]"

text \<open>The same request with the case type sent as a one-element list.\<close>

definition ex_request_list :: json where
  "ex_request_list =
     JObj [(''case_type'', JArr [JStr ''CRL.A.'']), (''case_number'', JStr ''1234''),
           (''filing_year'', JStr ''2023'')]"

text \<open>A request without the filing year.\<close>

definition ex_request_short :: json where
  "ex_request_short = JObj [(''case_type'', JStr ''CRL.A.''), (''case_number'', JStr ''1234'')]"

text \<open>Two rows written within the same tick of the store's clock.\<close>

definition ex_rows :: "query_record list" where
  "ex_rows =
     [\<lparr>row_id = 1, case_type = SqlText ''CRL.A.'', case_number = SqlText ''1'',
       filing_year = SqlText ''2023'', query_timestamp = 7, raw_response = [],
       parsed_data = ErrorPayload ''Failed to initialize browser'', query_status = ''error''\<rparr>,
      \<lparr>row_id = 2, case_type = SqlText ''CRL.A.'', case_number = SqlText ''2'',
       filing_year = SqlText ''2023'', query_timestamp = 7, raw_response = [],
       parsed_data = ErrorPayload ''Failed to initialize browser'', query_status = ''error''\<rparr>]"

text \<open>
  A remote side that answers 404 to one address and 200 to the others, and one that
  cannot be reached.
\<close>

definition ex_remote :: relay_env where
  "ex_remote =
     \<lparr>http_get = (\<lambda>u. if u = ''https://court.example/missing.pdf''
                        then Some \<lparr>status_code = 404, content = ''Not Found''\<rparr>
                        else Some \<lparr>status_code = 200, content = ''%PDF-1.4''\<rparr>),
      url_path = (\<lambda>u. Some (drop 21 u)),
      writable = (\<lambda>f. True)\<rparr>"

definition unreachable_remote :: relay_env where
  "unreachable_remote =
     \<lparr>http_get = (\<lambda>u. None), url_path = (\<lambda>u. Some (drop 21 u)), writable = (\<lambda>f. True)\<rparr>"

definition ex_world :: world where
  "ex_world = \<lparr>db = Some ex_rows, tmp_files = Map.empty\<rparr>"


section \<open>The lookup request: validation, logging and responses\<close>

lemma run_calls_prefix: "prefix (fst (run_calls b cs)) cs"
  by (induction cs) (auto split: option.splits prod.splits)

lemma run_calls_quiet:
  "\<forall>c \<in> set cs. raises b c = None \<Longrightarrow> run_calls b cs = (cs, None)"
  by (induction cs) auto

lemma quit_not_in_script: "Quit \<notin> set (form_script ct cn fy)"
  by (simp add: form_script_def)

lemma fetch_down:
  "fetch_case_data urljoin browser_down ct cn fy
     = (Inr (ErrorPayload ''Failed to initialize browser''), [Launch])"
  by (simp add: fetch_case_data_def browser_down_def)

lemma fetch_stuck:
  "fetch_case_data urljoin browser_stuck ct cn fy
     = (Inr (ErrorPayload ''Message: timeout''),
        [Launch, Get search_url, WaitPresence ''case_type'', Quit])"
  by (simp add: fetch_case_data_def browser_stuck_def form_script_def)

lemma fetch_quit_fails:
  "fetch_case_data urljoin browser_quit_fails ct cn fy
     = (Inl (WebDriverException ''Message: chrome not reachable''),
        Launch # form_script ct cn fy @ [Quit])"
proof -
  have "\<forall>c \<in> set (form_script ct cn fy). raises browser_quit_fails c = None"
    using quit_not_in_script [of ct cn fy] by (auto simp: browser_quit_fails_def)
  then have "run_calls browser_quit_fails (form_script ct cn fy) = (form_script ct cn fy, None)"
    by (rule run_calls_quiet)
  then show ?thesis by (simp add: fetch_case_data_def browser_quit_fails_def)
qed


lemma ex_request_fields:
  "dict_get ex_request ''case_type'' = Inr (JStr ''CRL.A.'')"
  "dict_get ex_request ''case_number'' = Inr (JStr ''1234'')"
  "dict_get ex_request ''filing_year'' = Inr (JStr ''2023'')"
  by (simp_all add: ex_request_def)

lemma ex_request_short_fields:
  "dict_get ex_request_short ''case_type'' = Inr (JStr ''CRL.A.'')"
  "dict_get ex_request_short ''case_number'' = Inr (JStr ''1234'')"
  "dict_get ex_request_short ''filing_year'' = Inr JNull"
  by (simp_all add: ex_request_short_def)

lemma search_down_example:
  "search_case ex_urljoin browser_down 7 (Some ex_request) (Some [])
     = ((ErrorPayload ''Failed to initialize browser'', 200), [Launch],
        Some [\<lparr>row_id = 1, case_type = SqlText ''CRL.A.'', case_number = SqlText ''1234'',
                filing_year = SqlText ''2023'', query_timestamp = 7, raw_response = [],
                parsed_data = ErrorPayload ''Failed to initialize browser'',
                query_status = ''error''\<rparr>])"
  by (simp add: search_case_def ex_request_fields fetch_down save_query_to_db_def next_id_def)

lemma search_stuck_example:
  "search_case ex_urljoin browser_stuck 9 (Some ex_request) (Some ex_rows) =
     ((ErrorPayload ''Message: timeout'', 200),
      [Launch, Get search_url, WaitPresence ''case_type'', Quit],
      Some (ex_rows @ [\<lparr>row_id = next_id ex_rows, case_type = SqlText ''CRL.A.'',
                         case_number = SqlText ''1234'', filing_year = SqlText ''2023'',
                         query_timestamp = 9, raw_response = [],
                         parsed_data = ErrorPayload ''Message: timeout'',
                         query_status = ''error''\<rparr>]))"
  by (simp add: search_case_def ex_request_fields fetch_stuck save_query_to_db_def)






text \<open>
  A body that is not a JSON object ends in the internal error, with no call on the
  browser and the log store unchanged.
\<close>

lemma search_case_not_object:
  "\<forall>kvs. data \<noteq> JObj kvs \<Longrightarrow>
     search_case urljoin b now (Some data) st
       = ((ErrorPayload ''Internal server error'', 500), [], st)"
  by (cases data) (simp_all add: search_case_def internal_error_def)

text \<open>
  C2 (as amended).  A lookup request whose body is a JSON object in which at least one
  of the three fields is missing or empty (more generally: falsy) gets the response
  \<open>{error: All fields are required}\<close> with status 400; no call is made on the browser and
  the log store is unchanged.
\<close>

theorem search_case_rejects:
  assumes "dict_get data ''case_type'' = Inr ct"
    and "dict_get data ''case_number'' = Inr cn"
    and "dict_get data ''filing_year'' = Inr fy"
    and "\<not> truthy ct \<or> \<not> truthy cn \<or> \<not> truthy fy"
  shows "search_case urljoin b now (Some data) st =
           ((ErrorPayload ''All fields are required'', 400), [], st)"
  using assms by (auto simp add: search_case_def)

theorem search_case_rejects_witness:
  "search_case ex_urljoin browser_stuck 9 (Some ex_request_short) (Some ex_rows) =
     ((ErrorPayload ''All fields are required'', 400), [], Some ex_rows)"
proof -
  have f: "dict_get ex_request_short ''case_type'' = Inr (JStr ''CRL.A.'')"
    "dict_get ex_request_short ''case_number'' = Inr (JStr ''1234'')"
    "dict_get ex_request_short ''filing_year'' = Inr JNull"
    by (simp_all add: ex_request_short_def)
  have "\<not> truthy (JStr ''CRL.A.'') \<or> \<not> truthy (JStr ''1234'') \<or> \<not> truthy JNull"
    by simp
  then show ?thesis by (rule search_case_rejects [OF f])
qed

text \<open>
  The claim as stated fails: a body that is valid JSON but not an object has none of
  the three fields, and the request ends in the internal error with status 500.
\<close>

theorem search_case_array_body_counterexample:
  "search_case ex_urljoin browser_down 7 (Some (JArr [])) (Some [])
     = ((ErrorPayload ''Internal server error'', 500), [], Some [])"
  by (simp add: search_case_def internal_error_def)

text \<open>
  C7 (as amended).  Every lookup request that fails gets a JSON object with an error
  message.  When input validation fails the response is
  \<open>{error: All fields are required}\<close> with status 400.  When an internal exception occurs
  (the body cannot be read or is not an object, the driver raises on quitting, or the
  insert raises) it is \<open>{error: Internal server error}\<close> with status 500.  When the
  lookup client reports a failure of the browser automation or of the extraction, and
  the attempt is logged, the response is the client's \<open>{error: message}\<close> with status
  200, as for a successful lookup.  So every response with a status other than 200 is
  an error object with status 400 or 500.
\<close>

theorem search_case_responses:
  "let resp = fst (search_case urljoin b now body st)
   in (body = None \<longrightarrow> resp = (ErrorPayload ''Internal server error'', 500))
    \<and> (\<forall>data. body = Some data \<longrightarrow>
          ((\<forall>kvs. data \<noteq> JObj kvs) \<longrightarrow> resp = (ErrorPayload ''Internal server error'', 500))
        \<and> (\<forall>ct cn fy.
              dict_get data ''case_type'' = Inr ct \<and> dict_get data ''case_number'' = Inr cn
              \<and> dict_get data ''filing_year'' = Inr fy \<longrightarrow>
              (\<not> (truthy ct \<and> truthy cn \<and> truthy fy) \<longrightarrow>
                 resp = (ErrorPayload ''All fields are required'', 400))
            \<and> (truthy ct \<and> truthy cn \<and> truthy fy \<longrightarrow>
                 (\<forall>e. fst (fetch_case_data urljoin b ct cn fy) = Inl e \<longrightarrow>
                    resp = (ErrorPayload ''Internal server error'', 500))
               \<and> (\<forall>p. fst (fetch_case_data urljoin b ct cn fy) = Inr p \<longrightarrow>
                    (if st \<noteq> None \<and> adapt ct \<noteq> None \<and> adapt cn \<noteq> None \<and> adapt fy \<noteq> None
                     then resp = (p, 200)
                     else resp = (ErrorPayload ''Internal server error'', 500))))))
    \<and> (snd resp = 200 \<or> has_error (fst resp) \<and> (snd resp = 400 \<or> snd resp = 500))"
proof -
  have 1: "body = None \<longrightarrow>
        fst (search_case urljoin b now body st) = (ErrorPayload ''Internal server error'', 500)"
    by (simp add: search_case_def internal_error_def)
  have 2: "(\<forall>kvs. data \<noteq> JObj kvs) \<longrightarrow>
        fst (search_case urljoin b now (Some data) st)
          = (ErrorPayload ''Internal server error'', 500)" for data
    by (cases data) (simp_all add: search_case_def internal_error_def)
  have 3: "\<not> (truthy ct \<and> truthy cn \<and> truthy fy) \<longrightarrow>
        fst (search_case urljoin b now (Some data) st)
          = (ErrorPayload ''All fields are required'', 400)"
    if "dict_get data ''case_type'' = Inr ct \<and> dict_get data ''case_number'' = Inr cn
              \<and> dict_get data ''filing_year'' = Inr fy" for data ct cn fy
    using that by (auto simp: search_case_def)
  have 4: "fst (fetch_case_data urljoin b ct cn fy) = Inl e \<longrightarrow>
        fst (search_case urljoin b now (Some data) st)
          = (ErrorPayload ''Internal server error'', 500)"
    if "dict_get data ''case_type'' = Inr ct \<and> dict_get data ''case_number'' = Inr cn
              \<and> dict_get data ''filing_year'' = Inr fy" "truthy ct \<and> truthy cn \<and> truthy fy"
    for data ct cn fy e
    using that by (simp add: search_case_def internal_error_def case_prod_beta)
  have 5: "fst (fetch_case_data urljoin b ct cn fy) = Inr p \<longrightarrow>
        (if st \<noteq> None \<and> adapt ct \<noteq> None \<and> adapt cn \<noteq> None \<and> adapt fy \<noteq> None
         then fst (search_case urljoin b now (Some data) st) = (p, 200)
         else fst (search_case urljoin b now (Some data) st)
                = (ErrorPayload ''Internal server error'', 500))"
    if "dict_get data ''case_type'' = Inr ct \<and> dict_get data ''case_number'' = Inr cn
              \<and> dict_get data ''filing_year'' = Inr fy" "truthy ct \<and> truthy cn \<and> truthy fy"
    for data ct cn fy p
    using that
    by (auto simp: search_case_def internal_error_def save_query_to_db_def case_prod_beta
        split: option.splits)
  have 6: "snd (fst (search_case urljoin b now body st)) = 200
      \<or> has_error (fst (fst (search_case urljoin b now body st)))
        \<and> (snd (fst (search_case urljoin b now body st)) = 400
           \<or> snd (fst (search_case urljoin b now body st)) = 500)"
    by (simp add: search_case_def internal_error_def case_prod_beta Let_def
        split: option.splits sum.splits)
  show ?thesis
    unfolding Let_def using 1 2 3 4 5 6 by blast
qed

theorem search_case_responses_witness:
  "fst (search_case ex_urljoin browser_stuck 9 (Some ex_request_short) (Some ex_rows))
     = (ErrorPayload ''All fields are required'', 400)
   \<and> fst (search_case ex_urljoin browser_stuck 9 (Some ex_request) (Some ex_rows))
     = (ErrorPayload ''Message: timeout'', 200)
   \<and> fst (search_case ex_urljoin browser_quit_fails 9 (Some ex_request) (Some ex_rows))
     = (ErrorPayload ''Internal server error'', 500)"
proof -
  have t: "truthy (JStr ''CRL.A.'') \<and> truthy (JStr ''1234'') \<and> truthy (JStr ''2023'')"
    and f: "\<not> (truthy (JStr ''CRL.A.'') \<and> truthy (JStr ''1234'') \<and> truthy JNull)"
    and a: "adapt (JStr ''CRL.A.'') \<noteq> None" "adapt (JStr ''1234'') \<noteq> None"
      "adapt (JStr ''2023'') \<noteq> None" "Some ex_rows \<noteq> None"
    by simp_all
  have s: "fst (fetch_case_data ex_urljoin browser_stuck (JStr ''CRL.A.'') (JStr ''1234'')
             (JStr ''2023'')) = Inr (ErrorPayload ''Message: timeout'')"
    and q: "fst (fetch_case_data ex_urljoin browser_quit_fails (JStr ''CRL.A.'')
             (JStr ''1234'') (JStr ''2023''))
              = Inl (WebDriverException ''Message: chrome not reachable'')"
    by (simp_all add: fetch_stuck fetch_quit_fails)
  have 1: "fst (search_case ex_urljoin browser_stuck 9 (Some ex_request_short) (Some ex_rows))
     = (ErrorPayload ''All fields are required'', 400)"
    using search_case_responses [of ex_urljoin browser_stuck 9 "Some ex_request_short"
        "Some ex_rows"] ex_request_short_fields f
    unfolding Let_def by blast
  have 2: "fst (search_case ex_urljoin browser_stuck 9 (Some ex_request) (Some ex_rows))
     = (ErrorPayload ''Message: timeout'', 200)"
    using search_case_responses [of ex_urljoin browser_stuck 9 "Some ex_request"
        "Some ex_rows"] ex_request_fields t a s
    unfolding Let_def by (metis (no_types, lifting))
  have 3: "fst (search_case ex_urljoin browser_quit_fails 9 (Some ex_request) (Some ex_rows))
     = (ErrorPayload ''Internal server error'', 500)"
    using search_case_responses [of ex_urljoin browser_quit_fails 9 "Some ex_request"
        "Some ex_rows"] ex_request_fields t q
    unfolding Let_def by blast
  from 1 2 3 show ?thesis by blast
qed

text \<open>
  The claim as stated fails: when the driver cannot be constructed the lookup has
  failed, and the response is the error object with status 200.
\<close>

theorem search_case_failed_lookup_counterexample:
  "fst (search_case ex_urljoin browser_down 7 (Some ex_request) (Some []))
     = (ErrorPayload ''Failed to initialize browser'', 200)"
  by (simp add: search_down_example)

text \<open>
  C10.  Whatever the request, the browser and the store, a lookup leaves the store as
  it was or appends one record, and that record's raw response is the empty string.
\<close>

theorem search_case_raw_response_empty:
  "search_case urljoin b now body st = (resp, made, st') \<Longrightarrow>
     st' = st \<or> (\<exists>rows r. st = Some rows \<and> st' = Some (rows @ [r]) \<and> raw_response r = [])"
  by (auto simp: search_case_def save_query_to_db_def
      split: option.splits sum.splits prod.splits if_splits)

theorem search_case_raw_response_empty_witness:
  "\<exists>rows r. Some [] = Some rows
     \<and> Some [\<lparr>row_id = 1, case_type = SqlText ''CRL.A.'', case_number = SqlText ''1234'',
               filing_year = SqlText ''2023'', query_timestamp = 7, raw_response = [],
               parsed_data = ErrorPayload ''Failed to initialize browser'',
               query_status = ''error''\<rparr>] = Some (rows @ [r])
     \<and> raw_response r = []"
  using search_case_raw_response_empty [OF search_down_example] by simp


section \<open>The browser is released\<close>

text \<open>
  C9.  When the driver was constructed, the calls on the browser are the launch, an
  initial part of the form script, and then \<open>Quit\<close>, which is made once and last, on
  the success path and on every path on which a call raises or the extraction fails.
  (Should \<open>Quit\<close> itself raise, it has still been called, once and last.)
  When the driver cannot be constructed, the result is
  \<open>{error: Failed to initialize browser}\<close> and no call follows the failed launch.
\<close>

theorem fetch_case_data_quits:
  "(launches b \<longrightarrow>
      (\<exists>made. snd (fetch_case_data urljoin b ct cn fy) = Launch # made @ [Quit]
          \<and> prefix made (form_script ct cn fy) \<and> Quit \<notin> set made))
   \<and> (\<not> launches b \<longrightarrow>
        fetch_case_data urljoin b ct cn fy
          = (Inr (ErrorPayload ''Failed to initialize browser''), [Launch]))"
proof (intro conjI impI)
  assume l: "launches b"
  let ?made = "fst (run_calls b (form_script ct cn fy))"
  have p: "prefix ?made (form_script ct cn fy)" by (rule run_calls_prefix)
  then have "set ?made \<subseteq> set (form_script ct cn fy)" by (rule set_mono_prefix)
  then have "Quit \<notin> set ?made" using quit_not_in_script by blast
  moreover have "snd (fetch_case_data urljoin b ct cn fy) = Launch # ?made @ [Quit]"
    using l by (simp add: fetch_case_data_def split: prod.splits)
  ultimately show "\<exists>made. snd (fetch_case_data urljoin b ct cn fy) = Launch # made @ [Quit]
          \<and> prefix made (form_script ct cn fy) \<and> Quit \<notin> set made"
    using p by blast
next
  assume "\<not> launches b"
  then show "fetch_case_data urljoin b ct cn fy
          = (Inr (ErrorPayload ''Failed to initialize browser''), [Launch])"
    by (simp add: fetch_case_data_def)
qed

theorem fetch_case_data_quits_witness:
  "(\<exists>made. snd (fetch_case_data ex_urljoin browser_stuck (JStr ''CRL.A.'') (JStr ''1234'')
                  (JStr ''2023'')) = Launch # made @ [Quit]
        \<and> prefix made (form_script (JStr ''CRL.A.'') (JStr ''1234'') (JStr ''2023''))
        \<and> Quit \<notin> set made)
   \<and> fetch_case_data ex_urljoin browser_down (JStr ''CRL.A.'') (JStr ''1234'') (JStr ''2023'')
       = (Inr (ErrorPayload ''Failed to initialize browser''), [Launch])"
proof -
  have up: "launches browser_stuck" by (simp add: browser_stuck_def)
  have down: "\<not> launches browser_down" by (simp add: browser_down_def)
  from up down show ?thesis
    using fetch_case_data_quits [of browser_stuck ex_urljoin "JStr ''CRL.A.''" "JStr ''1234''"
        "JStr ''2023''"]
      fetch_case_data_quits [of browser_down ex_urljoin "JStr ''CRL.A.''" "JStr ''1234''"
        "JStr ''2023''"]
    by blast
qed


section \<open>The document relay\<close>

lemma relay_unreachable_example:
  "download_pdf unreachable_remote (Some ''https://court.example/orders/final.pdf'') ex_world
     = ((RelayError ''Download failed'', 500), ex_world)"
  by (simp add: download_pdf_def unreachable_remote_def download_failed_def)

text \<open>
  When the remote status is 200 and the path of the address cannot be parsed or the
  temporary file cannot be written, the response is \<open>{error: Download failed}\<close> with
  status 500, and nothing is changed.
\<close>

lemma download_pdf_local_failures:
  assumes "u \<noteq> []" and "http_get env u = Some r" and "status_code r = 200"
    and "url_path env u = None
         \<or> (\<exists>path. url_path env u = Some path
               \<and> \<not> writable env (''/tmp/'' @ (if basename path = [] then ''document.pdf''
                                              else basename path)))"
  shows "download_pdf env (Some u) w = ((RelayError ''Download failed'', 500), w)"
  using assms by (auto simp: download_pdf_def download_failed_def Let_def)

text \<open>
  C8 (as amended).  A relay request never changes the log store.  With an empty \<open>url\<close>
  parameter the response is \<open>{error: PDF URL required}\<close>, status 400.  With a non-empty
  one: when the remote status is not 200 the response is
  \<open>{error: Failed to download PDF}\<close>, status 400; when the fetch raises the response is
  \<open>{error: Download failed}\<close>, status 500; when the status is 200 and the temporary file
  can be written, the body is returned as an attachment named by what follows the last
  slash of the URL's path, or \<open>document.pdf\<close> when nothing follows it.  The response is an
  error exactly when the fetch raises, the status is not 200, the path cannot be parsed,
  or the temporary file cannot be written.
\<close>

theorem download_pdf_outcomes:
  "db (snd (download_pdf env (Some u) w)) = db w
   \<and> (u = [] \<longrightarrow> download_pdf env (Some u) w = ((RelayError ''PDF URL required'', 400), w))
   \<and> (u \<noteq> [] \<longrightarrow>
       (\<forall>r. http_get env u = Some r \<and> status_code r \<noteq> 200 \<longrightarrow>
          download_pdf env (Some u) w = ((RelayError ''Failed to download PDF'', 400), w))
     \<and> (http_get env u = None \<longrightarrow>
          download_pdf env (Some u) w = ((RelayError ''Download failed'', 500), w))
     \<and> (\<forall>r path. http_get env u = Some r \<and> status_code r = 200 \<and> url_path env u = Some path
            \<and> writable env (''/tmp/'' @ (if basename path = [] then ''document.pdf''
                                          else basename path)) \<longrightarrow>
          fst (download_pdf env (Some u) w)
            = (Attachment (if basename path = [] then ''document.pdf'' else basename path)
                 (content r), 200))
     \<and> (is_relay_error (fst (fst (download_pdf env (Some u) w))) \<longleftrightarrow>
         (case http_get env u of
            None \<Rightarrow> True
          | Some r \<Rightarrow> status_code r \<noteq> 200 \<or>
              (case url_path env u of
                 None \<Rightarrow> True
               | Some path \<Rightarrow>
                   \<not> writable env (''/tmp/'' @ (if basename path = [] then ''document.pdf''
                                                 else basename path))))))"
  by (simp add: download_pdf_def download_failed_def Let_def split: option.splits)

theorem download_pdf_outcomes_witness:
  "download_pdf ex_remote (Some ''https://court.example/missing.pdf'') ex_world
     = ((RelayError ''Failed to download PDF'', 400), ex_world)
   \<and> fst (download_pdf ex_remote (Some ''https://court.example/orders/final.pdf'') ex_world)
       = (Attachment ''final.pdf'' ''%PDF-1.4'', 200)
   \<and> fst (download_pdf ex_remote (Some ''https://court.example/'') ex_world)
       = (Attachment ''document.pdf'' ''%PDF-1.4'', 200)
   \<and> db (snd (download_pdf ex_remote (Some ''https://court.example/orders/final.pdf'') ex_world))
       = Some ex_rows"
proof -
  have g404: "http_get ex_remote ''https://court.example/missing.pdf''
                = Some \<lparr>status_code = 404, content = ''Not Found''\<rparr>"
    and g200: "http_get ex_remote ''https://court.example/orders/final.pdf''
                = Some \<lparr>status_code = 200, content = ''%PDF-1.4''\<rparr>"
    and g200': "http_get ex_remote ''https://court.example/''
                = Some \<lparr>status_code = 200, content = ''%PDF-1.4''\<rparr>"
    and p1: "url_path ex_remote ''https://court.example/orders/final.pdf''
                = Some ''/orders/final.pdf''"
    and p2: "url_path ex_remote ''https://court.example/'' = Some ''/''"
    and w: "writable ex_remote f"
    for f
    by (simp_all add: ex_remote_def)
  have b1: "basename ''/orders/final.pdf'' = ''final.pdf''" and b2: "basename ''/'' = []"
    by (simp_all add: basename_def)
  show ?thesis
    using download_pdf_outcomes [of ex_remote "''https://court.example/missing.pdf''" ex_world]
      download_pdf_outcomes [of ex_remote "''https://court.example/orders/final.pdf''" ex_world]
      download_pdf_outcomes [of ex_remote "''https://court.example/''" ex_world]
    by (simp add: g404 g200 g200' p1 p2 w b1 b2 ex_world_def)
qed

text \<open>
  The claim as stated fails: with the \<open>url\<close> parameter present, a fetch that raises
  yields no status at all, and the response is an error.
\<close>

theorem download_pdf_unreachable_counterexample:
  "http_get unreachable_remote ''https://court.example/orders/final.pdf'' = None
   \<and> fst (download_pdf unreachable_remote (Some ''https://court.example/orders/final.pdf'')
            ex_world)
       = (RelayError ''Download failed'', 500)"
  by (simp add: relay_unreachable_example) (simp add: unreachable_remote_def)


section \<open>The history listing\<close>

lemma set_insert_desc: "set (insert_desc k x xs) = insert x (set xs)"
  by (induction xs) auto

lemma mset_insert_desc: "mset (insert_desc k x xs) = add_mset x (mset xs)"
  by (induction xs) auto

lemma sorted_insert_desc:
  "sorted_wrt (\<lambda>a b. k b \<le> k a) xs \<Longrightarrow> sorted_wrt (\<lambda>a b. k b \<le> k a) (insert_desc k x xs)"
  by (induction xs) (auto simp: set_insert_desc)

lemma mset_order_by_desc: "mset (order_by_desc k xs) = mset xs"
  by (induction xs) (auto simp: order_by_desc_def mset_insert_desc)

lemma sorted_order_by_desc: "sorted_wrt (\<lambda>a b. k b \<le> k a) (order_by_desc k xs)"
  by (induction xs) (auto simp: order_by_desc_def sorted_insert_desc)

lemma history_example:
  "get_history rowid_order (Some ex_rows)
     = (Inr [summary (ex_rows ! 0), summary (ex_rows ! 1)], 200)"
  by (simp add: get_history_def rowid_order_def ex_rows_def order_by_desc_def)

text \<open>
  C6 (as amended).  When the table exists, and whatever order the engine gives to rows
  with equal timestamps, the history operation returns, with status 200, the five-field
  summaries of \<open>min 50 n\<close> of the \<open>n\<close> stored rows, most recent first (timestamps never
  increase along the list), and no row left out is more recent than a row listed.
\<close>

theorem get_history_recent_first:
  assumes "mset (engine rows) = mset rows"
  shows "\<exists>sel. get_history engine (Some rows) = (Inr (map summary sel), 200)
      \<and> length sel = min 50 (length rows)
      \<and> set sel \<subseteq> set rows
      \<and> sorted_wrt (\<lambda>a b. query_timestamp b \<le> query_timestamp a) sel
      \<and> (\<forall>r \<in> set rows - set sel. \<forall>s \<in> set sel. query_timestamp r \<le> query_timestamp s)"
proof -
  let ?xs = "order_by_desc query_timestamp (engine rows)"
  let ?sel = "take 50 ?xs"
  have m: "mset ?xs = mset rows" using assms by (simp add: mset_order_by_desc)
  then have len: "length ?xs = length rows" by (metis size_mset)
  have st: "set ?xs = set rows" using m by (metis set_mset_mset)
  have srt: "sorted_wrt (\<lambda>a b. query_timestamp b \<le> query_timestamp a) (take 50 ?xs @ drop 50 ?xs)"
    using sorted_order_by_desc [of query_timestamp "engine rows"] by simp
  have 1: "get_history engine (Some rows) = (Inr (map summary ?sel), 200)"
    by (simp add: get_history_def)
  have 2: "length ?sel = min 50 (length rows)" using len by simp
  have 3: "set ?sel \<subseteq> set rows" using st set_take_subset by fastforce
  have 4: "sorted_wrt (\<lambda>a b. query_timestamp b \<le> query_timestamp a) ?sel"
    using srt unfolding sorted_wrt_append by blast
  have 5: "\<forall>r \<in> set rows - set ?sel. \<forall>s \<in> set ?sel. query_timestamp r \<le> query_timestamp s"
  proof (intro ballI)
    fix r s assume r: "r \<in> set rows - set ?sel" and s: "s \<in> set ?sel"
    have "set rows = set ?sel \<union> set (drop 50 ?xs)"
      using st by (metis append_take_drop_id set_append)
    with r have "r \<in> set (drop 50 ?xs)" by blast
    with s srt show "query_timestamp r \<le> query_timestamp s"
      unfolding sorted_wrt_append by blast
  qed
  from 1 2 3 4 5 show ?thesis by blast
qed

theorem get_history_recent_first_witness:
  "\<exists>sel. get_history rowid_order (Some ex_rows) = (Inr (map summary sel), 200)
      \<and> length sel = 2
      \<and> sorted_wrt (\<lambda>a b. query_timestamp b \<le> query_timestamp a) sel"
proof -
  have "mset (rowid_order ex_rows) = mset ex_rows" by (simp add: rowid_order_def)
  from get_history_recent_first [of rowid_order ex_rows, OF this] obtain sel
    where "get_history rowid_order (Some ex_rows) = (Inr (map summary sel), 200)"
      and "length sel = min 50 (length ex_rows)"
      and "sorted_wrt (\<lambda>a b. query_timestamp b \<le> query_timestamp a) sel"
    by blast
  moreover have "min 50 (length ex_rows) = 2" by (simp add: ex_rows_def)
  ultimately show ?thesis by auto
qed

text \<open>
  The claim as stated fails on the order of ties: of two rows with the same timestamp,
  SQLite lists the one with the smaller identifier first.
\<close>

theorem get_history_ties_counterexample:
  "get_history rowid_order (Some ex_rows)
     = (Inr [summary (ex_rows ! 0), summary (ex_rows ! 1)], 200)
   \<and> query_timestamp (ex_rows ! 0) = query_timestamp (ex_rows ! 1)
   \<and> row_id (ex_rows ! 0) < row_id (ex_rows ! 1)"
  by (simp add: history_example) (simp add: ex_rows_def)


section \<open>The field extractor\<close>

subsection \<open>Strings, tokens and stripped text\<close>


lemma lower_char_v: "lower_char c = lower_char CHR ''v'' \<longleftrightarrow> lower_char c = CHR ''v''"
  and lower_char_s: "lower_char c = lower_char CHR ''s'' \<longleftrightarrow> lower_char c = CHR ''s''"
  and lower_char_slash: "lower_char c = lower_char CHR ''/'' \<longleftrightarrow> lower_char c = CHR ''/''"
  by (simp_all add: lower_char_def latin1_upper_def latin1_lower_def)

lemma match_sep_prefix:
  assumes "match_here True sep_re (p, cs) \<noteq> []"
  shows "prefix ''vs'' (lower cs) \<or> prefix ''v/s'' (lower cs)"
proof (cases cs)
  case Nil
  with assms show ?thesis by (simp add: match_here_def sep_re_def)
next
  case (Cons c1 r1)
  show ?thesis
  proof (cases r1)
    case Nil
    with assms Cons show ?thesis by (simp add: match_here_def sep_re_def)
  next
    case (Cons c2 r2)
    show ?thesis
    proof (cases r2)
      case Nil
      with assms \<open>cs = c1 # r1\<close> \<open>r1 = c2 # r2\<close> show ?thesis
        by (auto simp: match_here_def sep_re_def lower_def lower_char_v lower_char_s
            lower_char_slash split: if_splits)
    next
      case (Cons c3 r3)
      with assms \<open>cs = c1 # r1\<close> \<open>r1 = c2 # r2\<close> show ?thesis
        by (auto simp: match_here_def sep_re_def lower_def lower_char_v lower_char_s
            lower_char_slash split: if_splits)
    qed
  qed
qed

lemma search_sep_contains:
  "search_from True sep_re (p, cs) \<noteq> None \<Longrightarrow>
     contains ''vs'' (lower cs) \<or> contains ''v/s'' (lower cs)"
proof (induction cs arbitrary: p)
  case Nil
  then show ?case by (simp add: match_here_def sep_re_def)
next
  case (Cons c cs)
  show ?case
  proof (cases "match_here True sep_re (p, c # cs)")
    case Nil
    with Cons.prems have "search_from True sep_re (Some c, cs) \<noteq> None" by simp
    from Cons.IH[OF this] show ?thesis by (auto simp: lower_def)
  next
    case (Cons e es)
    then have "match_here True sep_re (p, c # cs) \<noteq> []" by simp
    from match_sep_prefix[OF this] show ?thesis by (auto simp: lower_def)
  qed
qed

lemma re_search_sep_contains:
  "re_search True sep_re s \<Longrightarrow> contains ''vs'' (lower s) \<or> contains ''v/s'' (lower s)"
  unfolding re_search_def by (rule search_sep_contains)










lemma descendants_Tag:
  "descendants (Tag n a cs) = concat (map (\<lambda>c. c # descendants c) cs)"
  by (simp add: descendants_def map_concat comp_def)

lemma child_descendants:
  "e \<in> set cs \<Longrightarrow> insert e (set (descendants e)) \<subseteq> set (descendants (Tag n a cs))"
  by (auto simp: descendants_Tag)

lemma with_parent_descendants:
  "(e, p) \<in> set (with_parent t) \<Longrightarrow> set (descendants e) \<subseteq> set (descendants t)"
proof (induction t rule: with_parent.induct)
  case (1 n a cs)
  then obtain c where c: "c \<in> set cs" and "(e, p) = (c, Tag n a cs) \<or> (e, p) \<in> set (with_parent c)"
    by auto
  then have "set (descendants e) \<subseteq> set (descendants c)" using 1 by auto
  then show ?case using child_descendants[OF c, of n a] by blast
qed simp_all

lemma string_of_descendant:
  "is_tag e \<Longrightarrow> string_of e = Some d \<Longrightarrow> d \<in> set (descendants e)"
proof (induction e rule: string_of.induct)
  case (1 n a n' a' cs')
  then show ?case by (simp add: descendants_Tag)
qed (simp_all add: descendants_Tag)


text \<open>The extraction fails exactly when a link cannot be resolved.\<close>

lemma collect_orders_fails:
  "collect_orders urljoin links acc = None \<longleftrightarrow>
     list_ex (\<lambda>(link, parent).
                case get_attr link ''href'' of
                  None \<Rightarrow> False
                | Some href \<Rightarrow> href \<noteq> [] \<and> urljoin base_url href = None) links"
  by (induction urljoin links acc rule: collect_orders.induct)
     (simp_all split: option.splits)

lemma parse_unresolved:
  "unresolved urljoin t \<Longrightarrow>
     parse_case_details urljoin t = ErrorPayload ''Failed to parse case details''"
  using collect_orders_fails [of urljoin "find_all [''a''] (attr_matches ''href'' pdf_re) t" "[]"]
  by (simp add: parse_case_details_def unresolved_def Let_def)

lemma parse_resolved:
  "\<not> unresolved urljoin t \<Longrightarrow> \<exists>r. parse_case_details urljoin t = CasePayload r"
  using collect_orders_fails [of urljoin "find_all [''a''] (attr_matches ''href'' pdf_re) t" "[]"]
  by (auto simp: parse_case_details_def unresolved_def Let_def split: option.splits)



lemma no_separator_no_party_elements:
  assumes "\<forall>d \<in> set (descendants t).
              \<not> contains ''vs'' (lower (str d)) \<and> \<not> contains ''v/s'' (lower (str d))"
  shows "find_all [''td'', ''div''] (string_matches sep_re) t = []"
proof (rule ccontr)
  assume "find_all [''td'', ''div''] (string_matches sep_re) t \<noteq> []"
  then obtain e p where "(e, p) \<in> set (find_all [''td'', ''div''] (string_matches sep_re) t)"
    by (metis list.set_intros(1) neq_Nil_conv surj_pair)
  then have mem: "(e, p) \<in> set (with_parent t)" and tag: "is_tag e"
    and sm: "string_matches sep_re e"
    by (auto simp: find_all_def)
  from sm obtain d where so: "string_of e = Some d" and rs: "re_search True sep_re (str d)"
    by (auto simp: string_matches_def split: option.splits)
  have "d \<in> set (descendants e)" using tag so by (rule string_of_descendant)
  then have "d \<in> set (descendants t)" using with_parent_descendants [OF mem] by blast
  with assms re_search_sep_contains [OF rs] show False by blast
qed


lemma party_page_result:
  "parse_case_details ex_urljoin party_page
     = CasePayload \<lparr>parties = [''Plaintiff Name'', ''Defendant Name''], filing_date = None,
                    next_hearing_date = None, orders = [], status = ''Active''\<rparr>"
  by code_simp

lemma dates_page_result:
  "parse_case_details ex_urljoin dates_page
     = CasePayload \<lparr>parties = [], filing_date = Some ''01/01/2022'',
                    next_hearing_date = Some ''15/06/2023'', orders = [],
                    status = ''Active''\<rparr>"
  by code_simp

lemma bad_link_page_result:
  "parse_case_details strict_urljoin bad_link_page
     = ErrorPayload ''Failed to parse case details''"
  by code_simp

lemma plain_page_result:
  "parse_case_details ex_urljoin plain_page
     = CasePayload \<lparr>parties = [], filing_date = None, next_hearing_date = None,
                    orders = [], status = ''Active''\<rparr>"
  by code_simp

subsection \<open>Parties\<close>




subsection \<open>Dates\<close>

text \<open>Every match of the date pattern is a date token.\<close>

lemma rep_taken:
  "e \<in> set (rep ic a lo hi (p, cs)) \<Longrightarrow>
     \<exists>taken. cs = taken @ snd e \<and> list_all (atom_ok ic a) taken \<and> lo \<le> length taken
        \<and> (\<forall>h. hi = Some h \<longrightarrow> length taken \<le> h)"
proof (induction cs arbitrary: lo hi p)
  case Nil
  then show ?case by (auto split: if_splits)
next
  case (Cons c cs)
  from Cons.prems consider
    (more) "hi \<noteq> Some 0" "atom_ok ic a c"
      "e \<in> set (rep ic a (lo - 1) (map_option (\<lambda>h. h - 1) hi) (Some c, cs))"
    | (stop) "lo = 0" "e = (p, c # cs)"
    by (auto split: if_splits)
  then show ?case
  proof cases
    case more
    from Cons.IH[OF more(3)] obtain taken where t: "cs = taken @ snd e"
      "list_all (atom_ok ic a) taken" "lo - 1 \<le> length taken"
      "\<forall>h. map_option (\<lambda>h. h - 1) hi = Some h \<longrightarrow> length taken \<le> h"
      by blast
    have "c # cs = (c # taken) @ snd e" using t(1) by simp
    moreover have "list_all (atom_ok ic a) (c # taken)" using t(2) more(2) by simp
    moreover have "lo \<le> length (c # taken)" using t(3) by simp
    moreover have "\<forall>h. hi = Some h \<longrightarrow> length (c # taken) \<le> h"
      using t(4) more(1) by (cases hi) auto
    ultimately show ?thesis by blast
  next
    case stop
    then show ?thesis by (intro exI[of _ "[]"]) simp
  qed
qed

lemma seq_Cons_elim:
  "e \<in> set (seq ic (i # is) x) \<Longrightarrow> \<exists>y \<in> set (step ic i x). e \<in> set (seq ic is y)"
  by auto

lemma step_rep_taken:
  "y \<in> set (step ic (Rep a lo hi) x) \<Longrightarrow>
     \<exists>taken. snd x = taken @ snd y \<and> list_all (atom_ok ic a) taken \<and> lo \<le> length taken
        \<and> (\<forall>h. hi = Some h \<longrightarrow> length taken \<le> h)"
  by (cases x) (simp, erule rep_taken)

lemma step_boundary:
  assumes "y \<in> set (step ic WordBoundary x)"
  shows "y = x"
proof (cases "word_before x \<noteq> word_after x")
  case True
  then have s: "step ic WordBoundary x = [x]" by simp
  from assms show ?thesis unfolding s by simp
next
  case False
  then have s: "step ic WordBoundary x = []" by simp
  from assms show ?thesis unfolding s by simp
qed

lemma step_digits:
  assumes "y \<in> set (step False (Rep Digit lo (Some hi)) x)"
  shows "\<exists>ds. snd x = ds @ snd y \<and> list_all is_digit ds \<and> lo \<le> length ds \<and> length ds \<le> hi"
proof -
  from step_rep_taken [OF assms] obtain taken where
    "snd x = taken @ snd y" "list_all (atom_ok False Digit) taken" "lo \<le> length taken"
    "\<forall>h. Some hi = Some h \<longrightarrow> length taken \<le> h"
    by blast
  moreover from this(2) have "list_all is_digit taken" by (simp add: list_all_iff)
  ultimately show ?thesis by blast
qed

lemma step_separator:
  assumes "y \<in> set (step False (one (OneOf ''-/'')) x)"
  shows "\<exists>s. snd x = s # snd y \<and> s \<in> set ''-/''"
proof -
  from step_rep_taken [OF assms] obtain taken where t:
    "snd x = taken @ snd y" "list_all (atom_ok False (OneOf ''-/'')) taken" "1 \<le> length taken"
    "\<forall>h. Some 1 = Some h \<longrightarrow> length taken \<le> h"
    by blast
  then have "length taken = 1" by auto
  then obtain s where s: "taken = [s]" by (cases taken) auto
  with t(2) have "s \<in> set ''-/''" by simp
  with t(1) s show ?thesis by simp
qed

lemma date_match_shape:
  assumes "e \<in> set (match_here False date_pattern x)"
  shows "\<exists>a s1 b s2 c. snd x = a @ s1 # b @ s2 # c @ snd e
     \<and> list_all is_digit a \<and> length a \<in> {1, 2} \<and> s1 \<in> set ''-/''
     \<and> list_all is_digit b \<and> length b \<in> {1, 2} \<and> s2 \<in> set ''-/''
     \<and> list_all is_digit c \<and> length c \<in> {2, 3, 4}"
proof -
  from assms have "e \<in> set (seq False [WordBoundary, Rep Digit 1 (Some 2), one (OneOf ''-/''),
       Rep Digit 1 (Some 2), one (OneOf ''-/''), Rep Digit 2 (Some 4), WordBoundary] x)"
    by (simp only: match_here_def date_pattern_def list.map concat.simps append_Nil2)
  then obtain x1 where x1: "x1 \<in> set (step False WordBoundary x)"
    and e1: "e \<in> set (seq False [Rep Digit 1 (Some 2), one (OneOf ''-/''),
       Rep Digit 1 (Some 2), one (OneOf ''-/''), Rep Digit 2 (Some 4), WordBoundary] x1)"
    by (blast dest: seq_Cons_elim)
  from e1 obtain x2 where x2: "x2 \<in> set (step False (Rep Digit 1 (Some 2)) x1)"
    and e2: "e \<in> set (seq False [one (OneOf ''-/''),
       Rep Digit 1 (Some 2), one (OneOf ''-/''), Rep Digit 2 (Some 4), WordBoundary] x2)"
    by (blast dest: seq_Cons_elim)
  from e2 obtain x3 where x3: "x3 \<in> set (step False (one (OneOf ''-/'')) x2)"
    and e3: "e \<in> set (seq False [Rep Digit 1 (Some 2), one (OneOf ''-/''),
       Rep Digit 2 (Some 4), WordBoundary] x3)"
    by (blast dest: seq_Cons_elim)
  from e3 obtain x4 where x4: "x4 \<in> set (step False (Rep Digit 1 (Some 2)) x3)"
    and e4: "e \<in> set (seq False [one (OneOf ''-/''), Rep Digit 2 (Some 4), WordBoundary] x4)"
    by (blast dest: seq_Cons_elim)
  from e4 obtain x5 where x5: "x5 \<in> set (step False (one (OneOf ''-/'')) x4)"
    and e5: "e \<in> set (seq False [Rep Digit 2 (Some 4), WordBoundary] x5)"
    by (blast dest: seq_Cons_elim)
  from e5 obtain x6 where x6: "x6 \<in> set (step False (Rep Digit 2 (Some 4)) x5)"
    and e6: "e \<in> set (seq False [WordBoundary] x6)"
    by (blast dest: seq_Cons_elim)
  from e6 obtain x7 where x7: "x7 \<in> set (step False WordBoundary x6)"
    and e7: "e \<in> set (seq False [] x7)"
    by (blast dest: seq_Cons_elim)
  from e7 have "e = x7" by simp
  with x7 have x6e: "snd x6 = snd e" using step_boundary by blast
  from x1 have x1x: "snd x = snd x1" using step_boundary by blast
  from step_digits [OF x2] obtain a where a: "snd x1 = a @ snd x2" "list_all is_digit a"
    "1 \<le> length a" "length a \<le> 2"
    by blast
  from step_separator [OF x3] obtain s1 where s1: "snd x2 = s1 # snd x3" "s1 \<in> set ''-/''"
    by blast
  from step_digits [OF x4] obtain b where b: "snd x3 = b @ snd x4" "list_all is_digit b"
    "1 \<le> length b" "length b \<le> 2"
    by blast
  from step_separator [OF x5] obtain s2 where s2: "snd x4 = s2 # snd x5" "s2 \<in> set ''-/''"
    by blast
  from step_digits [OF x6] obtain c where c: "snd x5 = c @ snd x6" "list_all is_digit c"
    "2 \<le> length c" "length c \<le> 4"
    by blast
  have "snd x = a @ s1 # b @ s2 # c @ snd e"
    unfolding x1x a(1) s1(1) b(1) s2(1) c(1) x6e ..
  moreover have "length a \<in> {1, 2}" using a(3,4) by auto
  moreover have "length b \<in> {1, 2}" using b(3,4) by auto
  moreover have "length c \<in> {2, 3, 4}" using c(3,4) by auto
  ultimately show ?thesis using a(2) b(2) c(2) s1(2) s2(2) by blast
qed

lemma not_digit_sep: "s \<in> set ''-/'' \<Longrightarrow> \<not> is_digit s"
  by (auto simp: is_digit_def)

lemma date_shape_token:
  assumes "list_all is_digit a" "length a \<in> {1, 2}" "s1 \<in> set ''-/''"
    "list_all is_digit b" "length b \<in> {1, 2}" "s2 \<in> set ''-/''"
    "list_all is_digit c" "length c \<in> {2, 3, 4}"
  shows "is_date_token (a @ s1 # b @ s2 # c)"
proof -
  have 1: "takeWhile is_digit (a @ s1 # b @ s2 # c) = a"
    "dropWhile is_digit (a @ s1 # b @ s2 # c) = s1 # b @ s2 # c"
    using assms(1,3) not_digit_sep
    by (auto simp: list_all_iff takeWhile_tail dropWhile_append3)
  have 2: "takeWhile is_digit (b @ s2 # c) = b" "dropWhile is_digit (b @ s2 # c) = s2 # c"
    using assms(4,6) not_digit_sep
    by (auto simp: list_all_iff takeWhile_tail dropWhile_append3)
  show ?thesis
    unfolding is_date_token_def Let_def 1 using assms by (simp add: 2)
qed

lemma scan_matches:
  "(piece', m) \<in> set (fst (scan ic r piece x)) \<Longrightarrow>
     \<exists>y e. first_match ic r y = Some e \<and> m = matched y e"
proof (induction ic r piece x rule: scan.induct)
  case (1 ic r piece p)
  then show ?case by simp
next
  case (2 ic r piece p c cs)
  show ?case
  proof (cases "first_match ic r (p, c # cs)")
    case None
    with 2 show ?thesis by simp
  next
    case (Some e)
    show ?thesis
    proof (cases "(piece', m) \<in> set (fst (scan ic r [] e))")
      case True
      with 2 Some show ?thesis by simp
    next
      case False
      with 2(3) Some have "m = matched (p, c # cs) e" by (auto split: prod.splits)
      with Some show ?thesis by blast
    qed
  qed
qed

lemma first_match_here: "first_match ic r y = Some e \<Longrightarrow> e \<in> set (match_here ic r y)"
  by (auto simp: first_match_def split: list.splits if_splits)

lemma findall_dates_are_tokens:
  assumes "d \<in> set (re_findall False date_pattern s)"
  shows "is_date_token d"
proof -
  from assms obtain piece where "(piece, d) \<in> set (fst (scan False date_pattern [] (None, s)))"
    by (auto simp: re_findall_def)
  from scan_matches[OF this] obtain y e where fm: "first_match False date_pattern y = Some e"
    and d: "d = matched y e" by blast
  from date_match_shape[OF first_match_here[OF fm]] obtain a s1 b s2 c where
    sh: "snd y = a @ s1 # b @ s2 # c @ snd e"
     "list_all is_digit a" "length a \<in> {1, 2}" "s1 \<in> set ''-/''"
     "list_all is_digit b" "length b \<in> {1, 2}" "s2 \<in> set ''-/''"
     "list_all is_digit c" "length c \<in> {2, 3, 4}" by blast
  have "snd y = (a @ s1 # b @ s2 # c) @ snd e" using sh(1) by simp
  then have "matched y e = a @ s1 # b @ s2 # c"
    unfolding matched_def by (metis add_diff_cancel_right' append_eq_conv_conj length_append)
  with d show ?thesis using date_shape_token[OF sh(2-9)] by simp
qed

text \<open>
  C4 (as amended).  Let \<open>D\<close> be the matches, in order, of the date pattern in the full
  text of the document; each of them is a date token (one or two digits, \<open>-\<close> or \<open>/\<close>,
  one or two digits, \<open>-\<close> or \<open>/\<close>, two to four digits).  When the address of a \<open>.pdf\<close>
  link of the document cannot be resolved, the extractor returns
  \<open>{error: Failed to parse case details}\<close> and no dates.  Otherwise it returns case data
  in which: if \<open>D\<close> is not empty the filing date is its first element; if \<open>D\<close> has at
  least two elements the next hearing date is its last element; if \<open>D\<close> is empty both
  are null; if \<open>D\<close> has exactly one element the next hearing date is null.
\<close>

theorem dates_first_and_last:
  "let D = re_findall False date_pattern (get_text False t)
   in (\<forall>d \<in> set D. is_date_token d)
    \<and> (unresolved urljoin t \<longrightarrow>
         parse_case_details urljoin t = ErrorPayload ''Failed to parse case details'')
    \<and> (\<not> unresolved urljoin t \<longrightarrow>
         (\<exists>r. parse_case_details urljoin t = CasePayload r
            \<and> (D \<noteq> [] \<longrightarrow> filing_date r = Some (hd D))
            \<and> (2 \<le> length D \<longrightarrow> next_hearing_date r = Some (last D))
            \<and> (D = [] \<longrightarrow> filing_date r = None \<and> next_hearing_date r = None)
            \<and> (length D = 1 \<longrightarrow> next_hearing_date r = None)))"
proof -
  let ?D = "re_findall False date_pattern (get_text False t)"
  have tok: "\<forall>d \<in> set ?D. is_date_token d"
    using findall_dates_are_tokens by blast
  have err: "unresolved urljoin t \<longrightarrow>
         parse_case_details urljoin t = ErrorPayload ''Failed to parse case details''"
    using parse_unresolved by blast
  have ok: "\<not> unresolved urljoin t \<longrightarrow>
         (\<exists>r. parse_case_details urljoin t = CasePayload r
            \<and> (?D \<noteq> [] \<longrightarrow> filing_date r = Some (hd ?D))
            \<and> (2 \<le> length ?D \<longrightarrow> next_hearing_date r = Some (last ?D))
            \<and> (?D = [] \<longrightarrow> filing_date r = None \<and> next_hearing_date r = None)
            \<and> (length ?D = 1 \<longrightarrow> next_hearing_date r = None))"
  proof
    assume "\<not> unresolved urljoin t"
    then obtain r where r: "parse_case_details urljoin t = CasePayload r"
      using parse_resolved by blast
    then have "(?D \<noteq> [] \<longrightarrow> filing_date r = Some (hd ?D))
            \<and> (2 \<le> length ?D \<longrightarrow> next_hearing_date r = Some (last ?D))
            \<and> (?D = [] \<longrightarrow> filing_date r = None \<and> next_hearing_date r = None)
            \<and> (length ?D = 1 \<longrightarrow> next_hearing_date r = None)"
      by (auto simp: parse_case_details_def Let_def split: option.splits if_splits)
    with r show "\<exists>r. parse_case_details urljoin t = CasePayload r
            \<and> (?D \<noteq> [] \<longrightarrow> filing_date r = Some (hd ?D))
            \<and> (2 \<le> length ?D \<longrightarrow> next_hearing_date r = Some (last ?D))
            \<and> (?D = [] \<longrightarrow> filing_date r = None \<and> next_hearing_date r = None)
            \<and> (length ?D = 1 \<longrightarrow> next_hearing_date r = None)"
      by blast
  qed
  from tok err ok show ?thesis by (simp add: Let_def)
qed

theorem dates_first_and_last_witness:
  "re_findall False date_pattern (get_text False dates_page) = [''01/01/2022'', ''15/06/2023'']
   \<and> is_date_token ''01/01/2022'' \<and> is_date_token ''15/06/2023''
   \<and> filing_date \<lparr>parties = [], filing_date = Some ''01/01/2022'',
                   next_hearing_date = Some ''15/06/2023'', orders = [],
                   status = ''Active''\<rparr> = Some (hd [''01/01/2022'', ''15/06/2023''])
   \<and> next_hearing_date \<lparr>parties = [], filing_date = Some ''01/01/2022'',
                   next_hearing_date = Some ''15/06/2023'', orders = [],
                   status = ''Active''\<rparr> = Some (last [''01/01/2022'', ''15/06/2023''])
   \<and> parse_case_details strict_urljoin bad_link_page
       = ErrorPayload ''Failed to parse case details''"
proof -
  have D: "re_findall False date_pattern (get_text False dates_page)
             = [''01/01/2022'', ''15/06/2023'']"
    by code_simp
  have u1: "\<not> unresolved ex_urljoin dates_page" and u2: "unresolved strict_urljoin bad_link_page"
    by code_simp+
  have 1: "is_date_token ''01/01/2022'' \<and> is_date_token ''15/06/2023''
     \<and> (\<exists>r. parse_case_details ex_urljoin dates_page = CasePayload r
          \<and> filing_date r = Some (hd [''01/01/2022'', ''15/06/2023''])
          \<and> next_hearing_date r = Some (last [''01/01/2022'', ''15/06/2023'']))"
    using dates_first_and_last [of dates_page ex_urljoin] u1 D by (simp add: Let_def)
  have 2: "parse_case_details strict_urljoin bad_link_page
       = ErrorPayload ''Failed to parse case details''"
    using dates_first_and_last [of bad_link_page strict_urljoin] u2 by (simp add: Let_def)
  from 1 2 D dates_page_result show ?thesis by auto
qed

text \<open>
  The claim as stated fails: a document whose text has a date, with a link whose
  address cannot be resolved, yields the error and no filing date.
\<close>

theorem dates_bad_link_counterexample:
  "re_findall False date_pattern (get_text False bad_link_page) = [''12-03-2023'']
   \<and> parse_case_details strict_urljoin bad_link_page
       = ErrorPayload ''Failed to parse case details''"
proof -
  have "re_findall False date_pattern (get_text False bad_link_page) = [''12-03-2023'']"
    by code_simp
  then show ?thesis using bad_link_page_result by simp
qed

subsection \<open>Nothing found\<close>

text \<open>
  C5.  For a document whose text has no match of the date pattern, none of whose
  strings contains \<open>vs\<close> or \<open>v/s\<close> in any letter case, and none of whose \<open>a\<close> elements
  has a target matching the \<open>.pdf\<close> pattern, the extractor returns exactly the record
  with no parties, null dates, no orders and status \<open>Active\<close>, and not an error.  And
  every successful extraction result has status \<open>Active\<close>.
\<close>

theorem nothing_found_default_result:
  "(re_findall False date_pattern (get_text False t) = []
      \<and> (\<forall>d \<in> set (descendants t).
            \<not> contains ''vs'' (lower (str d)) \<and> \<not> contains ''v/s'' (lower (str d)))
      \<and> (\<forall>d \<in> set (descendants t).
            is_tag d \<and> tag_name d = ''a'' \<longrightarrow> \<not> attr_matches ''href'' pdf_re d)
     \<longrightarrow> parse_case_details urljoin t
           = CasePayload \<lparr>parties = [], filing_date = None, next_hearing_date = None,
                          orders = [], status = ''Active''\<rparr>)
   \<and> (\<forall>r. parse_case_details urljoin t = CasePayload r \<longrightarrow> status r = ''Active'')"
proof (intro conjI impI allI)
  assume h: "re_findall False date_pattern (get_text False t) = []
      \<and> (\<forall>d \<in> set (descendants t).
            \<not> contains ''vs'' (lower (str d)) \<and> \<not> contains ''v/s'' (lower (str d)))
      \<and> (\<forall>d \<in> set (descendants t).
            is_tag d \<and> tag_name d = ''a'' \<longrightarrow> \<not> attr_matches ''href'' pdf_re d)"
  then have pe: "find_all [''td'', ''div''] (string_matches sep_re) t = []"
    using no_separator_no_party_elements by blast
  have "filter (\<lambda>(e, p). is_tag e \<and> tag_name e \<in> set [''a''] \<and> attr_matches ''href'' pdf_re e)
          (with_parent t) = []"
    using h by (auto simp: filter_empty_conv descendants_def)
  then have pl: "find_all [''a''] (attr_matches ''href'' pdf_re) t = []"
    by (simp only: find_all_def)
  from h pe pl show "parse_case_details urljoin t
           = CasePayload \<lparr>parties = [], filing_date = None, next_hearing_date = None,
                          orders = [], status = ''Active''\<rparr>"
    by (simp add: parse_case_details_def)
next
  fix r assume "parse_case_details urljoin t = CasePayload r"
  then show "status r = ''Active''"
    by (auto simp: parse_case_details_def Let_def split: option.splits if_splits)
qed

theorem nothing_found_default_result_witness:
  "parse_case_details ex_urljoin plain_page
     = CasePayload \<lparr>parties = [], filing_date = None, next_hearing_date = None,
                    orders = [], status = ''Active''\<rparr>
   \<and> status \<lparr>parties = [''Plaintiff Name'', ''Defendant Name''], filing_date = None,
              next_hearing_date = None, orders = [], status = ''Active''\<rparr> = ''Active''"
proof -
  have 1: "re_findall False date_pattern (get_text False plain_page) = []"
    by code_simp
  have 2: "\<forall>d \<in> set (descendants plain_page).
            \<not> contains ''vs'' (lower (str d)) \<and> \<not> contains ''v/s'' (lower (str d))"
    by code_simp
  have 3: "\<forall>d \<in> set (descendants plain_page).
            is_tag d \<and> tag_name d = ''a'' \<longrightarrow> \<not> attr_matches ''href'' pdf_re d"
    by code_simp
  from nothing_found_default_result [of plain_page ex_urljoin] 1 2 3
    nothing_found_default_result [of party_page ex_urljoin] party_page_result
  show ?thesis by blast
qed

end
